theory Spec2Isabelle
  imports Complex_Main "HOL-Library.AList" "HOL-Library.Product_Lexorder"
begin

section \<open>Python strings and dictionaries\<close>

text \<open>
  A Python \<open>str\<close> is modelled as a \<open>string\<close>; a \<open>char\<close> stands for the code point of
  the same number, so the model covers the code points below 256. On these,
  \<open>str.split()\<close>, \<open>str.strip()\<close> and the class \<open>\s\<close> of \<open>re\<close> use one and the same
  whitespace test, and \<open>\d\<close> matches the ten ASCII digits only.
\<close>

definition py_whitespace :: "char list" where
  "py_whitespace =
     [CHR 0x09, CHR 0x0A, CHR 0x0B, CHR 0x0C, CHR 0x0D,
      CHR 0x1C, CHR 0x1D, CHR 0x1E, CHR 0x1F, CHR 0x20, CHR 0x85, CHR 0xA0]"

definition py_isspace :: "char \<Rightarrow> bool" where
  "py_isspace c = (c \<in> set py_whitespace)"

definition py_isdecimal :: "char \<Rightarrow> bool" where
  "py_isdecimal c = (c \<in> set ''0123456789'')"

text \<open>\<open>s.strip()\<close>: leading and trailing whitespace removed.\<close>

definition py_strip :: "string \<Rightarrow> string" where
  "py_strip s = rev (dropWhile py_isspace (rev (dropWhile py_isspace s)))"

text \<open>
  \<open>s.split()\<close>: the maximal runs of non-whitespace characters, in order. The first
  argument holds the characters of the run being read, last one first.
\<close>

fun split_ws :: "string \<Rightarrow> string \<Rightarrow> string list" where
  "split_ws cur [] = (if cur = [] then [] else [rev cur])"
| "split_ws cur (c # cs) =
     (if py_isspace c
      then (if cur = [] then split_ws [] cs else rev cur # split_ws [] cs)
      else split_ws (c # cur) cs)"

definition py_split :: "string \<Rightarrow> string list" where
  "py_split s = split_ws [] s"

text \<open>\<open>sep.join(xs)\<close>.\<close>

fun py_join :: "string \<Rightarrow> string list \<Rightarrow> string" where
  "py_join sep [] = []"
| "py_join sep [x] = x"
| "py_join sep (x # y # ys) = x @ sep @ py_join sep (y # ys)"

text \<open>\<open>re.sub(r'[^\d\s]', '', s)\<close>: every character outside the class is deleted.\<close>

definition sub_non_digit_space :: "string \<Rightarrow> string" where
  "sub_non_digit_space s = filter (\<lambda>c. py_isdecimal c \<or> py_isspace c) s"

text \<open>\<open>re.sub(r'[\n\x0c]', '', s)\<close>.\<close>

definition sub_newline_formfeed :: "string \<Rightarrow> string" where
  "sub_newline_formfeed s = filter (\<lambda>c. c \<noteq> CHR 0x0A \<and> c \<noteq> CHR 0x0C) s"

text \<open>
  A \<open>dict\<close> is an association list in insertion order with distinct keys:
  \<open>d[k] = v\<close> is \<open>AList.update k v d\<close> (an existing key keeps its place, a new one goes
  to the end), \<open>k in d\<close> is \<open>map_of d k \<noteq> None\<close>, and \<open>d.items()\<close> is the list itself.
\<close>

type_synonym ('k, 'v) dict = "('k \<times> 'v) list"

section \<open>Entity Mapper\<close>

text \<open>
  \<open>map_entities\<close> of the pytesseract variant (\<open>ocr_support_file_heic.py\<close>). The loop over
  \<open>raw_text_data.items()\<close> is the \<open>foldl\<close>.
\<close>

definition map_entities_item ::
  "(string, string) dict \<Rightarrow> string \<times> string \<Rightarrow> (string, string) dict" where
  "map_entities_item entities item =
     (case item of (label, text) \<Rightarrow>
        if label \<notin> set [''id_card'', ''en_name'']
        then AList.update label (py_strip text) entities
        else entities)"

definition map_entities :: "(string, string) dict \<Rightarrow> (string, string) dict" where
  "map_entities raw_text_data =
     (let entities0 = [];
          entities1 =
            (case map_of raw_text_data ''id_card'' of
               None \<Rightarrow> entities0
             | Some v \<Rightarrow> AList.update ''id_card'' (py_strip (sub_non_digit_space v)) entities0);
          entities2 =
            (case map_of raw_text_data ''en_name'' of
               None \<Rightarrow> entities1
             | Some v \<Rightarrow>
                 (let parts = py_split v in
                  if 3 \<le> length parts
                  then AList.update ''en_lastname'' (py_join '' '' (drop 2 parts))
                         (AList.update ''en_firstname'' (parts ! 1)
                            (AList.update ''en_prefix'' (parts ! 0) entities1))
                  else AList.update ''en_name_raw'' v entities1))
      in foldl map_entities_item entities2 raw_text_data)"

text \<open>\<open>map_entities\<close> of the EasyOCR variant (\<open>ocr_thai_id_card_easyocr.py\<close>).\<close>

definition map_entities_easyocr :: "(string, string) dict \<Rightarrow> (string, string) dict" where
  "map_entities_easyocr raw_text_data = raw_text_data"

section \<open>Images and slicing\<close>

text \<open>
  An image as \<open>cv2.imread\<close> returns it is an array of rows of pixels with three 8-bit
  channels (blue, green, red). \<open>shape0\<close> and \<open>shape1\<close> are \<open>img.shape[0]\<close> and
  \<open>img.shape[1]\<close>, \<open>img_size\<close> is \<open>img.size\<close>: the number of scalar entries.
\<close>

type_synonym pixel = "nat \<times> nat \<times> nat"

type_synonym image = "pixel list list"

definition shape0 :: "image \<Rightarrow> nat" where
  "shape0 img = length img"

definition shape1 :: "image \<Rightarrow> nat" where
  "shape1 img = (case img of [] \<Rightarrow> 0 | row # _ \<Rightarrow> length row)"

definition img_size :: "image \<Rightarrow> nat" where
  "img_size img = shape0 img * shape1 img * 3"

text \<open>
  A slice \<open>xs[lo:hi]\<close>: a negative bound counts from the end, and every bound is clamped
  to the length; an empty range gives the empty list.
\<close>

definition slice_bound :: "nat \<Rightarrow> int \<Rightarrow> nat" where
  "slice_bound n i = (if i < 0 then nat (max 0 (i + int n)) else min (nat i) n)"

definition py_slice :: "int \<Rightarrow> int \<Rightarrow> 'a list \<Rightarrow> 'a list" where
  "py_slice lo hi xs =
     (let a = slice_bound (length xs) lo; b = slice_bound (length xs) hi
      in take (b - a) (drop a xs))"

text \<open>\<open>img[y1:y2, x1:x2]\<close>.\<close>

definition slice2 :: "image \<Rightarrow> int \<Rightarrow> int \<Rightarrow> int \<Rightarrow> int \<Rightarrow> image" where
  "slice2 img y1 y2 x1 x2 = map (py_slice x1 x2) (py_slice y1 y2 img)"

text \<open>\<open>cv2.COLOR_GRAY2BGR\<close> replicates the luminance into the three channels.\<close>

definition gray2bgr :: "nat \<Rightarrow> pixel" where
  "gray2bgr g = (g, g, g)"

section \<open>Exceptions, detector results and the environment\<close>

datatype exc = HTTPException nat string | Exception string

text \<open>The keyword arguments of a detector call; \<open>None\<close> is an argument not given.\<close>

record det_args =
  arg_conf :: rat
  arg_iou :: "rat option"

text \<open>One entry of \<open>results[0].boxes\<close>: \<open>xyxy[i]\<close>, \<open>cls[i]\<close> and \<open>conf[i]\<close>.\<close>

record raw_box =
  xyxy :: "rat \<times> rat \<times> rat \<times> rat"
  cls :: nat
  conf :: rat

text \<open>
  \<open>results\<close> is the list a detector call returns for one image, a single \<open>Results\<close>
  object; the model keeps its \<open>boxes\<close>. As a list of one element it is true wherever the
  source tests \<open>if results:\<close>.
\<close>

type_synonym results = "raw_box list"

record yolo =
  predict :: "det_args \<Rightarrow> image \<Rightarrow> exc + results"
  names :: "nat \<Rightarrow> string"

record reader =
  lang_list :: "string list"
  readtext :: "image \<Rightarrow> exc + string list"

record upload_file =
  filename :: string
  content :: "nat list"

text \<open>
  What the program reads from outside itself: the module globals set when the models
  are loaded (\<open>None\<close> after a failed load), and the library calls whose outcome the
  program only observes. A call that raises returns the exception.
\<close>

record env =
  CARD_DETECTOR :: "yolo option"
  TEXT_DETECTOR :: "yolo option"
  TH_READER :: "reader option"
  EN_READER :: "reader option"
  MIXED_READER :: "reader option"
  imread :: "string \<Rightarrow> image option"
  bgr2gray :: "pixel \<Rightarrow> nat"
  plot :: "results \<Rightarrow> exc + image"
  imwrite :: "string \<Rightarrow> image \<Rightarrow> exc + bool"
  image_to_string :: "image \<Rightarrow> string \<Rightarrow> string \<Rightarrow> exc + string"
  json_dump :: "string \<Rightarrow> (string, string) dict \<Rightarrow> exc option"
  save_upload :: "string \<Rightarrow> upload_file \<Rightarrow> exc option"
  convert_heic :: "string \<Rightarrow> string \<Rightarrow> exc option"
  copy_file :: "string \<Rightarrow> string \<Rightarrow> exc option"
  http_exception_str :: "nat \<Rightarrow> string \<Rightarrow> string"

text \<open>\<open>str(e)\<close> for a caught exception.\<close>

definition exc_str :: "env \<Rightarrow> exc \<Rightarrow> string" where
  "exc_str en e =
     (case e of HTTPException status detail \<Rightarrow> http_exception_str en status detail
              | Exception msg \<Rightarrow> msg)"

text \<open>The calls that leave the program, in the order they are made.\<close>

datatype event =
    Imwrite string
  | ImageToString image string string
  | Readtext "string list" image
  | JsonDump string "(string, string) dict"

type_synonym 'a io = "(exc + 'a) \<times> event list"

text \<open>Sequencing: an exception ends the run, the events made so far are kept.\<close>

definition bind_io :: "'a io \<Rightarrow> ('a \<Rightarrow> 'b io) \<Rightarrow> 'b io" where
  "bind_io m f =
     (case m of
        (Inl e, evs) \<Rightarrow> (Inl e, evs)
      | (Inr x, evs) \<Rightarrow> (case f x of (r, evs') \<Rightarrow> (r, evs @ evs')))"

section \<open>Paths\<close>

text \<open>\<open>os.path.basename\<close>, \<open>os.path.splitext(p)[0]\<close> and \<open>os.path.join\<close> (POSIX).\<close>

definition basename :: "string \<Rightarrow> string" where
  "basename p = rev (takeWhile (\<lambda>c. c \<noteq> CHR ''/'') (rev p))"

definition splitext_root :: "string \<Rightarrow> string" where
  "splitext_root p =
     (let name = basename p;
          dir = take (length p - length name) p;
          stem = rev (drop 1 (dropWhile (\<lambda>c. c \<noteq> CHR ''.'') (rev name)))
      in if CHR ''.'' \<in> set name \<and> filter (\<lambda>c. c \<noteq> CHR ''.'') stem \<noteq> []
         then dir @ stem else p)"

definition path_join :: "string \<Rightarrow> string \<Rightarrow> string" where
  "path_join a b =
     (if b \<noteq> [] \<and> hd b = CHR ''/'' then b
      else if a = [] \<or> last a = CHR ''/'' then a @ b
      else a @ ''/'' @ b)"

section \<open>Card Localizer: \<open>crop_card\<close>\<close>

text \<open>\<open>astype(int)\<close> on a floating-point array rounds towards zero.\<close>

definition astype_int :: "rat \<Rightarrow> int" where
  "astype_int q = (if 0 \<le> q then \<lfloor>q\<rfloor> else \<lceil>q\<rceil>)"

definition astype_int4 :: "rat \<times> rat \<times> rat \<times> rat \<Rightarrow> int \<times> int \<times> int \<times> int" where
  "astype_int4 b =
     (case b of (x1, y1, x2, y2) \<Rightarrow>
        (astype_int x1, astype_int y1, astype_int x2, astype_int y2))"

text \<open>
  \<open>np.argmax\<close>: the index of the first greatest entry. \<open>argmax_from bi bv i xs\<close> scans
  \<open>xs\<close>, whose first entry has index \<open>i\<close>, with the best index and value so far.
\<close>

fun argmax_from :: "nat \<Rightarrow> rat \<Rightarrow> nat \<Rightarrow> rat list \<Rightarrow> nat" where
  "argmax_from bi bv i [] = bi"
| "argmax_from bi bv i (x # xs) =
     (if bv < x then argmax_from i x (Suc i) xs else argmax_from bi bv (Suc i) xs)"

definition argmax :: "rat list \<Rightarrow> nat" where
  "argmax xs = (case xs of [] \<Rightarrow> 0 | x # rest \<Rightarrow> argmax_from 0 x 1 rest)"

text \<open>
  The part of \<open>crop_card\<close> after the detector call, word for word the same in the two
  files: \<open>img\<close> is what the name \<open>img\<close> is bound to at that point. \<open>argmax\<close> is only
  reached on a non-empty list, so the index is in range.
\<close>

definition crop_best_box :: "image \<Rightarrow> results \<Rightarrow> image option \<times> results option" where
  "crop_best_box img results =
     (let boxes_data = results in
      if length boxes_data = 0 then (None, Some results)
      else
        (let confidences = map conf boxes_data;
             best_box_index = argmax confidences;
             best_box = map (\<lambda>b. astype_int4 (xyxy b)) boxes_data ! best_box_index
         in case best_box of (x1, y1, x2, y2) \<Rightarrow>
              (let y1' = max 0 y1; y2' = min (int (shape0 img)) y2;
                   x1' = max 0 x1; x2' = min (int (shape1 img)) x2;
                   cropped_card = slice2 img y1' y2' x1' x2'
               in if 0 < img_size cropped_card then (Some cropped_card, Some results)
                  else (None, Some results))))"

text \<open>\<open>crop_card\<close> of \<open>ocr_support_file_heic.py\<close>: the crop is cut from the image as read.\<close>

definition crop_card :: "env \<Rightarrow> yolo \<Rightarrow> string \<Rightarrow> exc + (image option \<times> results option)" where
  "crop_card env card_detector_model image_path =
     (case imread env image_path of
        None \<Rightarrow> Inr (None, None)
      | Some img \<Rightarrow>
          (let gray_img = map (map (bgr2gray env)) img;
               img_for_detection = map (map gray2bgr) gray_img
           in case predict card_detector_model \<lparr>arg_conf = 1 / 4, arg_iou = None\<rparr>
                     img_for_detection of
                Inl e \<Rightarrow> Inl e
              | Inr results \<Rightarrow> Inr (crop_best_box img results)))"

text \<open>
  \<open>crop_card\<close> of \<open>ocr_thai_id_card_easyocr.py\<close>: the grey image is assigned to \<open>img\<close>
  itself, so the crop is cut from the grey image.
\<close>

definition crop_card_easyocr ::
  "env \<Rightarrow> yolo \<Rightarrow> string \<Rightarrow> exc + (image option \<times> results option)" where
  "crop_card_easyocr env card_detector_model image_path =
     (case imread env image_path of
        None \<Rightarrow> Inr (None, None)
      | Some img0 \<Rightarrow>
          (let gray_img = map (map (bgr2gray env)) img0;
               img = map (map gray2bgr) gray_img
           in case predict card_detector_model \<lparr>arg_conf = 1 / 4, arg_iou = Some (1 / 4)\<rparr>
                     img of
                Inl e \<Rightarrow> Inl e
              | Inr results \<Rightarrow> Inr (crop_best_box img results)))"

section \<open>Field Localizer: \<open>detect_text_fields\<close>\<close>

record detection =
  box :: "int \<times> int \<times> int \<times> int"
  label :: string
  confidence :: rat

text \<open>The body of the loop over the raw boxes.\<close>

definition keep_best ::
  "(nat \<Rightarrow> string) \<Rightarrow> (string, detection) dict \<Rightarrow> raw_box \<Rightarrow> (string, detection) dict" where
  "keep_best model_names best_detections b =
     (let bx = astype_int4 (xyxy b);
          class_id = cls b;
          lbl = model_names class_id;
          c = conf b
      in if (case map_of best_detections lbl of
               None \<Rightarrow> True
             | Some d \<Rightarrow> confidence d < c)
         then AList.update lbl \<lparr>box = bx, label = lbl, confidence = c\<rparr> best_detections
         else best_detections)"

text \<open>The sort key \<open>(d['box'][1], d['box'][0])\<close>, compared as Python compares tuples.\<close>

definition reading_key :: "detection \<Rightarrow> int \<times> int" where
  "reading_key d = (case box d of (x1, y1, x2, y2) \<Rightarrow> (y1, x1))"

text \<open>
  The loop and the sort, the same in the two files. \<open>sorted\<close> is stable, as
  \<open>sort_key\<close> is.
\<close>

definition best_per_label :: "(nat \<Rightarrow> string) \<Rightarrow> results \<Rightarrow> detection list" where
  "best_per_label model_names boxes_data =
     (let best_detections = foldl (keep_best model_names) [] boxes_data
      in sort_key reading_key (map snd best_detections))"

definition detect_text_fields ::
  "yolo \<Rightarrow> image option \<Rightarrow> exc + (detection list \<times> results option)" where
  "detect_text_fields text_detector_model cropped_card_img =
     (case cropped_card_img of
        None \<Rightarrow> Inr ([], None)
      | Some img \<Rightarrow>
          (case predict text_detector_model \<lparr>arg_conf = 1 / 4, arg_iou = None\<rparr> img of
             Inl e \<Rightarrow> Inl e
           | Inr results \<Rightarrow>
               Inr (best_per_label (names text_detector_model) results, Some results)))"

definition detect_text_fields_easyocr ::
  "yolo \<Rightarrow> image option \<Rightarrow> exc + (detection list \<times> results option)" where
  "detect_text_fields_easyocr text_detector_model cropped_card_img =
     (case cropped_card_img of
        None \<Rightarrow> Inr ([], None)
      | Some img \<Rightarrow>
          (case predict text_detector_model \<lparr>arg_conf = 1 / 100, arg_iou = Some (1 / 4)\<rparr> img of
             Inl e \<Rightarrow> Inl e
           | Inr results \<Rightarrow>
               Inr (best_per_label (names text_detector_model) results, Some results)))"

section \<open>Field Reader: \<open>read_text_from_fields\<close>\<close>

definition th_labels :: "string list" where
  "th_labels = [''prefix_name_th'', ''first_name_th'', ''last_name_th'']"

definition en_labels :: "string list" where
  "en_labels = [''prefix_name_en'', ''first_name_en'', ''last_name_en'']"

definition th_labels_easyocr :: "string list" where
  "th_labels_easyocr =
     [''prefix_name_th'', ''first_name_th'', ''last_name_th'',
      ''date_of_birth_th'', ''date_of_expity_th'', ''religion'']"

definition en_labels_easyocr :: "string list" where
  "en_labels_easyocr =
     [''prefix_name_en'', ''first_name_en'', ''last_name_en'',
      ''date_of_birth_en'', ''date_of_expity_en'']"

text \<open>\<open>cropped_card_img[box[1]:box[3], box[0]:box[2]]\<close>.\<close>

definition field_region :: "image \<Rightarrow> detection \<Rightarrow> image" where
  "field_region cropped_card_img field =
     (case box field of (b0, b1, b2, b3) \<Rightarrow> slice2 cropped_card_img b1 b3 b0 b2)"

text \<open>
  The loop of the pytesseract variant; the last argument is \<open>extracted_data\<close> as the
  iteration finds it.
\<close>

fun read_fields ::
  "env \<Rightarrow> image \<Rightarrow> detection list \<Rightarrow> (string, string) dict \<Rightarrow> (string, string) dict io" where
  "read_fields env cropped_card_img [] extracted_data = (Inr extracted_data, [])"
| "read_fields env cropped_card_img (field # rest) extracted_data =
     (let lbl = label field;
          text_region = field_region cropped_card_img field
      in if 0 < img_size text_region
         then
           (let lang = (if lbl \<in> set th_labels then ''tha''
                        else if lbl \<in> set en_labels then ''eng'' else ''tha+eng'');
                config = ''--psm 7''
            in case image_to_string env text_region lang config of
                 Inl e \<Rightarrow> (Inl e, [ImageToString text_region lang config])
               | Inr out \<Rightarrow>
                   (let extracted_text = py_strip out;
                        extracted_data' =
                          (if extracted_text \<noteq> []
                           then AList.update lbl (sub_newline_formfeed extracted_text)
                                  extracted_data
                           else extracted_data)
                    in case read_fields env cropped_card_img rest extracted_data' of
                         (r, evs) \<Rightarrow> (r, ImageToString text_region lang config # evs)))
         else read_fields env cropped_card_img rest extracted_data)"

definition read_text_from_fields ::
  "env \<Rightarrow> image \<Rightarrow> detection list \<Rightarrow> (string, string) dict io" where
  "read_text_from_fields env cropped_card_img text_fields =
     read_fields env cropped_card_img text_fields []"

text \<open>The loop of the EasyOCR variant.\<close>

fun read_fields_easyocr ::
  "reader \<Rightarrow> reader \<Rightarrow> reader \<Rightarrow> image \<Rightarrow> detection list \<Rightarrow> (string, string) dict
     \<Rightarrow> (string, string) dict io" where
  "read_fields_easyocr th_reader en_reader mixed_reader cropped_card_img [] extracted_data =
     (Inr extracted_data, [])"
| "read_fields_easyocr th_reader en_reader mixed_reader cropped_card_img (field # rest)
       extracted_data =
     (let lbl = label field;
          text_region = field_region cropped_card_img field
      in if 0 < img_size text_region
         then
           (let rd = (if lbl \<in> set th_labels_easyocr then th_reader
                      else if lbl \<in> set en_labels_easyocr then en_reader else mixed_reader)
            in case readtext rd text_region of
                 Inl e \<Rightarrow> (Inl e, [Readtext (lang_list rd) text_region])
               | Inr result \<Rightarrow>
                   (let extracted_data' =
                          (if result \<noteq> []
                           then AList.update lbl (py_join '' '' result) extracted_data
                           else extracted_data)
                    in case read_fields_easyocr th_reader en_reader mixed_reader
                              cropped_card_img rest extracted_data' of
                         (r, evs) \<Rightarrow> (r, Readtext (lang_list rd) text_region # evs)))
         else read_fields_easyocr th_reader en_reader mixed_reader cropped_card_img rest
                extracted_data)"

definition read_text_from_fields_easyocr ::
  "reader \<Rightarrow> reader \<Rightarrow> reader \<Rightarrow> image \<Rightarrow> detection list \<Rightarrow> (string, string) dict io" where
  "read_text_from_fields_easyocr th_reader en_reader mixed_reader cropped_card_img text_fields =
     read_fields_easyocr th_reader en_reader mixed_reader cropped_card_img text_fields []"

section \<open>Pipeline Orchestrator: \<open>run_ocr_pipeline\<close>\<close>

definition save_plotted_image :: "env \<Rightarrow> results \<Rightarrow> string \<Rightarrow> unit io" where
  "save_plotted_image env results output_path =
     (case plot env results of
        Inl e \<Rightarrow> (Inl e, [])
      | Inr plotted_img \<Rightarrow>
          (case imwrite env output_path plotted_img of
             Inl e \<Rightarrow> (Inl e, [Imwrite output_path])
           | Inr written \<Rightarrow> (Inr (), [Imwrite output_path])))"

text \<open>\<open>if results: save_plotted_image(results, path)\<close>.\<close>

definition save_if_results :: "env \<Rightarrow> results option \<Rightarrow> string \<Rightarrow> unit io" where
  "save_if_results env results output_path =
     (case results of
        None \<Rightarrow> (Inr (), [])
      | Some r \<Rightarrow> save_plotted_image env r output_path)"

text \<open>\<open>with open(path, 'w') as f: json.dump(final_entities, f)\<close>, then the return.\<close>

definition write_json :: "env \<Rightarrow> string \<Rightarrow> (string, string) dict \<Rightarrow> (string, string) dict io" where
  "write_json env json_output_path final_entities =
     (case json_dump env json_output_path final_entities of
        Some e \<Rightarrow> (Inl e, [JsonDump json_output_path final_entities])
      | None \<Rightarrow> (Inr final_entities, [JsonDump json_output_path final_entities]))"

definition card_not_found :: exc where
  "card_not_found = HTTPException 400 ''Could not detect an ID card in the image.''"

definition models_not_loaded :: exc where
  "models_not_loaded = HTTPException 503 ''Models are not loaded. API is unavailable.''"

text \<open>\<open>run_ocr_pipeline\<close> of \<open>ocr_support_file_heic.py\<close>.\<close>

definition run_ocr_pipeline :: "env \<Rightarrow> string \<Rightarrow> string \<Rightarrow> (string, string) dict io" where
  "run_ocr_pipeline env image_path output_dir =
     (case (CARD_DETECTOR env, TEXT_DETECTOR env) of
        (Some card_detector, Some text_detector) \<Rightarrow>
          (let base_filename = splitext_root (basename image_path)
           in bind_io (crop_card env card_detector image_path, [])
                (\<lambda>(cropped_card, card_results).
              bind_io (save_if_results env card_results
                         (path_join output_dir (base_filename @ ''_1_card_detection.jpg'')))
                (\<lambda>u1.
              case cropped_card of
                None \<Rightarrow> (Inl card_not_found, [])
              | Some cropped \<Rightarrow>
              bind_io (detect_text_fields text_detector (Some cropped), [])
                (\<lambda>(text_fields, text_results).
              bind_io (save_if_results env text_results
                         (path_join output_dir (base_filename @ ''_2_text_detections.jpg'')))
                (\<lambda>u2.
              bind_io (read_text_from_fields env cropped text_fields)
                (\<lambda>raw_text_data.
              write_json env (path_join output_dir (base_filename @ ''_data.json''))
                (map_entities raw_text_data)))))))
      | _ \<Rightarrow> (Inl models_not_loaded, []))"

text \<open>\<open>run_ocr_pipeline\<close> of \<open>ocr_thai_id_card_easyocr.py\<close>.\<close>

definition run_ocr_pipeline_easyocr ::
  "env \<Rightarrow> string \<Rightarrow> string \<Rightarrow> (string, string) dict io" where
  "run_ocr_pipeline_easyocr env image_path output_dir =
     (case (CARD_DETECTOR env, TEXT_DETECTOR env, TH_READER env, EN_READER env,
            MIXED_READER env) of
        (Some card_detector, Some text_detector, Some th_reader, Some en_reader,
         Some mixed_reader) \<Rightarrow>
          (let base_filename = splitext_root (basename image_path)
           in bind_io (crop_card_easyocr env card_detector image_path, [])
                (\<lambda>(cropped_card, card_results).
              bind_io (save_if_results env card_results
                         (path_join output_dir (base_filename @ ''_1_card_detection.jpg'')))
                (\<lambda>u1.
              case cropped_card of
                None \<Rightarrow> (Inl card_not_found, [])
              | Some cropped \<Rightarrow>
              bind_io (detect_text_fields_easyocr text_detector (Some cropped), [])
                (\<lambda>(text_fields, text_results).
              bind_io (save_if_results env text_results
                         (path_join output_dir (base_filename @ ''_2_text_detections.jpg'')))
                (\<lambda>u2.
              bind_io (read_text_from_fields_easyocr th_reader en_reader mixed_reader cropped
                         text_fields)
                (\<lambda>raw_text_data.
              write_json env (path_join output_dir (base_filename @ ''_data.json''))
                (map_entities_easyocr raw_text_data)))))))
      | _ \<Rightarrow> (Inl models_not_loaded, []))"

section \<open>Endpoint: \<open>process_thai_id\<close>\<close>

text \<open>
  \<open>str.lower()\<close> and \<open>str.endswith\<close> on the code points below 256. Creating the two
  directories and removing the temporary files are taken to succeed; they return
  nothing the endpoint uses.
\<close>

definition py_lower_char :: "char \<Rightarrow> char" where
  "py_lower_char c =
     (let n = (of_char c :: nat)
      in if (65 \<le> n \<and> n \<le> 90) \<or> (192 \<le> n \<and> n \<le> 222 \<and> n \<noteq> 215)
         then char_of (n + 32) else c)"

definition py_lower :: "string \<Rightarrow> string" where
  "py_lower s = map py_lower_char s"

definition py_endswith :: "string \<Rightarrow> string \<Rightarrow> bool" where
  "py_endswith s suf = (length suf \<le> length s \<and> drop (length s - length suf) s = suf)"

definition lift_exc :: "exc option \<Rightarrow> unit io" where
  "lift_exc r = (case r of None \<Rightarrow> (Inr (), []) | Some e \<Rightarrow> (Inl e, []))"

definition internal_error :: "env \<Rightarrow> exc \<Rightarrow> exc" where
  "internal_error env e =
     HTTPException 500 (''An internal server error occurred: '' @ exc_str env e)"

text \<open>
  \<open>process_thai_id\<close> of \<open>ocr_support_file_heic.py\<close>: the single handler
  \<open>except Exception\<close> catches every exception of the body, \<open>HTTPException\<close> too.
\<close>

definition process_thai_id :: "env \<Rightarrow> upload_file \<Rightarrow> (string, string) dict io" where
  "process_thai_id env file =
     (let temp_dir = ''temp_uploads'';
          output_dir = ''output_logs'';
          temp_file_path = path_join temp_dir ''temp_image.png'';
          original_upload_path = path_join temp_dir (filename file);
          body =
            bind_io (lift_exc (save_upload env original_upload_path file))
              (\<lambda>u1.
            bind_io (lift_exc
                       (if py_endswith (py_lower (filename file)) ''.heic''
                           \<or> py_endswith (py_lower (filename file)) ''.heif''
                        then convert_heic env original_upload_path temp_file_path
                        else copy_file env original_upload_path temp_file_path))
              (\<lambda>u2. run_ocr_pipeline env temp_file_path output_dir))
      in case body of
           (Inr extracted_data, evs) \<Rightarrow> (Inr extracted_data, evs)
         | (Inl e, evs) \<Rightarrow> (Inl (internal_error env e), evs))"

text \<open>
  \<open>process_thai_id\<close> of \<open>ocr_thai_id_card_easyocr.py\<close>: \<open>except HTTPException\<close> comes
  first and raises the exception again.
\<close>

definition process_thai_id_easyocr :: "env \<Rightarrow> upload_file \<Rightarrow> (string, string) dict io" where
  "process_thai_id_easyocr env file =
     (let temp_dir = ''temp_uploads'';
          output_dir = ''output_logs'';
          temp_file_path = path_join temp_dir (filename file);
          body =
            bind_io (lift_exc (save_upload env temp_file_path file))
              (\<lambda>u1. run_ocr_pipeline_easyocr env temp_file_path output_dir)
      in case body of
           (Inr extracted_data, evs) \<Rightarrow> (Inr extracted_data, evs)
         | (Inl (HTTPException status detail), evs) \<Rightarrow> (Inl (HTTPException status detail), evs)
         | (Inl (Exception msg), evs) \<Rightarrow> (Inl (internal_error env (Exception msg)), evs))"

section \<open>Notions used to state the properties\<close>

text \<open>The \<open>Detection\<close> built from one raw box.\<close>

definition to_detection :: "(nat \<Rightarrow> string) \<Rightarrow> raw_box \<Rightarrow> detection" where
  "to_detection model_names b =
     \<lparr>box = astype_int4 (xyxy b), label = model_names (cls b), confidence = conf b\<rparr>"

text \<open>
  \<open>first_best nm raw d\<close>: \<open>d\<close> comes from a raw box that has a strictly greater
  confidence than every earlier raw box of its label and is not exceeded by any later
  one: the first raw box of that label with the greatest confidence.
\<close>

definition first_best :: "(nat \<Rightarrow> string) \<Rightarrow> results \<Rightarrow> detection \<Rightarrow> bool" where
  "first_best nm raw d =
     (\<exists>pre b post. raw = pre @ b # post \<and> d = to_detection nm b
        \<and> (\<forall>p \<in> set pre. nm (cls p) = label d \<longrightarrow> conf p < confidence d)
        \<and> (\<forall>p \<in> set post. nm (cls p) = label d \<longrightarrow> conf p \<le> confidence d))"

text \<open>
  The language the pytesseract variant passes for a label, the reader the EasyOCR
  variant picks, and \<open>extracted_data\<close> after one successful read, as the loops of
  \<open>read_text_from_fields\<close> compute them.
\<close>

definition lang_hint :: "string \<Rightarrow> string" where
  "lang_hint lbl =
     (if lbl \<in> set th_labels then ''tha''
      else if lbl \<in> set en_labels then ''eng'' else ''tha+eng'')"

definition pick_reader :: "reader \<Rightarrow> reader \<Rightarrow> reader \<Rightarrow> string \<Rightarrow> reader" where
  "pick_reader th_reader en_reader mixed_reader lbl =
     (if lbl \<in> set th_labels_easyocr then th_reader
      else if lbl \<in> set en_labels_easyocr then en_reader else mixed_reader)"

definition store_text :: "string \<Rightarrow> string \<Rightarrow> (string, string) dict \<Rightarrow> (string, string) dict" where
  "store_text lbl out extracted_data =
     (if py_strip out \<noteq> []
      then AList.update lbl (sub_newline_formfeed (py_strip out)) extracted_data
      else extracted_data)"

definition store_result ::
  "string \<Rightarrow> string list \<Rightarrow> (string, string) dict \<Rightarrow> (string, string) dict" where
  "store_result lbl result extracted_data =
     (if result \<noteq> [] then AList.update lbl (py_join '' '' result) extracted_data
      else extracted_data)"

definition nonempty_region :: "image \<Rightarrow> detection \<Rightarrow> bool" where
  "nonempty_region img g = (0 < img_size (field_region img g))"

text \<open>
  The image both variants of \<open>crop_card\<close> hand to the detector: \<open>COLOR_BGR2GRAY\<close>
  followed by \<open>COLOR_GRAY2BGR\<close>.
\<close>

definition gray_bgr :: "env \<Rightarrow> image \<Rightarrow> image" where
  "gray_bgr env img = map (map gray2bgr) (map (map (bgr2gray env)) img)"

text \<open>What holds of \<open>best_detections\<close> after the loop has read the raw boxes \<open>xs\<close>.\<close>

definition dedup_inv :: "(nat \<Rightarrow> string) \<Rightarrow> results \<Rightarrow> (string, detection) dict \<Rightarrow> bool" where
  "dedup_inv nm xs bd =
     (distinct (map fst bd) \<and> fst ` set bd = (\<lambda>b. nm (cls b)) ` set xs
      \<and> (\<forall>(l, d) \<in> set bd. label d = l \<and> first_best nm xs d))"

section \<open>Sample inputs\<close>

definition sample_names :: "nat \<Rightarrow> string" where
  "sample_names n =
     (if n = 0 then ''religion'' else if n = 1 then ''id_card''
      else if n = 2 then ''first_name_th'' else ''first_name_en'')"


definition duplicate_boxes :: results where
  "duplicate_boxes =
     [\<lparr>xyxy = (1, 2, 3, 4), cls = 1, conf = 1 / 2\<rparr>,
      \<lparr>xyxy = (5, 6, 7, 8), cls = 1, conf = 9 / 10\<rparr>,
      \<lparr>xyxy = (0, 1, 2, 3), cls = 0, conf = 3 / 4\<rparr>,
      \<lparr>xyxy = (9, 9, 9, 9), cls = 1, conf = 9 / 10\<rparr>]"

definition const_model :: "results \<Rightarrow> yolo" where
  "const_model r = \<lparr>predict = (\<lambda>args img. Inr r), names = sample_names\<rparr>"

definition one_pixel :: image where
  "one_pixel = [[(0, 0, 255)]]"

definition duplicate_fields :: "detection list" where
  "duplicate_fields =
     [\<lparr>box = (0, 1, 2, 3), label = ''religion'', confidence = 3 / 4\<rparr>,
      \<lparr>box = (5, 6, 7, 8), label = ''id_card'', confidence = 9 / 10\<rparr>]"

definition sample_card :: image where
  "sample_card = [[(0, 0, 255), (10, 20, 30), (1, 2, 3)], [(5, 5, 5), (7, 8, 9), (255, 0, 0)]]"

text \<open>A luminance in 14-bit fixed point, standing for \<open>cv2.COLOR_BGR2GRAY\<close> in the samples.\<close>

definition sample_luma :: "pixel \<Rightarrow> nat" where
  "sample_luma p = (case p of (b, g, r) \<Rightarrow> (1868 * b + 9617 * g + 4899 * r + 8192) div 16384)"

definition card_boxes :: results where
  "card_boxes = [\<lparr>xyxy = (0, 0, 3, 2), cls = 0, conf = 9 / 10\<rparr>]"

text \<open>Three fields on the sample card; the second has an empty box.\<close>

definition field_boxes :: results where
  "field_boxes =
     [\<lparr>xyxy = (0, 0, 2, 1), cls = 0, conf = 4 / 5\<rparr>,
      \<lparr>xyxy = (1, 1, 1, 2), cls = 2, conf = 3 / 5\<rparr>,
      \<lparr>xyxy = (0, 1, 3, 2), cls = 1, conf = 7 / 10\<rparr>]"

definition religion_field :: detection where
  "religion_field = \<lparr>box = (0, 0, 2, 1), label = ''religion'', confidence = 4 / 5\<rparr>"

definition empty_field :: detection where
  "empty_field = \<lparr>box = (1, 1, 1, 2), label = ''first_name_th'', confidence = 3 / 5\<rparr>"

definition id_card_field :: detection where
  "id_card_field = \<lparr>box = (0, 1, 3, 2), label = ''id_card'', confidence = 7 / 10\<rparr>"

definition sample_reader :: "string list \<Rightarrow> reader" where
  "sample_reader langs = \<lparr>lang_list = langs, readtext = (\<lambda>region. Inr [''12'', ''34''])\<rparr>"

text \<open>\<open>str\<close> of an \<open>HTTPException\<close> as \<open>"<status>: <detail>"\<close>, for three-digit status codes.\<close>

definition sample_http_str :: "nat \<Rightarrow> string \<Rightarrow> string" where
  "sample_http_str status detail =
     [''0123456789'' ! (status div 100 mod 10), ''0123456789'' ! (status div 10 mod 10),
      ''0123456789'' ! (status mod 10)] @ '': '' @ detail"

definition sample_env :: env where
  "sample_env =
     \<lparr>CARD_DETECTOR = Some (const_model card_boxes),
      TEXT_DETECTOR = Some (const_model field_boxes),
      TH_READER = Some (sample_reader [''th'']),
      EN_READER = Some (sample_reader [''en'']),
      MIXED_READER = Some (sample_reader [''th'', ''en'']),
      imread = (\<lambda>path. Some sample_card),
      bgr2gray = sample_luma,
      plot = (\<lambda>r. Inr one_pixel),
      imwrite = (\<lambda>path img. Inr True),
      image_to_string = (\<lambda>region lang config. Inr ('' 12-34 '' @ [CHR 0x0A])),
      json_dump = (\<lambda>path d. None),
      save_upload = (\<lambda>path f. None),
      convert_heic = (\<lambda>src dst. None),
      copy_file = (\<lambda>src dst. None),
      http_exception_str = sample_http_str\<rparr>"

text \<open>The sample environment after a failed model load, with an undecodable file, and
  with a JSON file that cannot be written.\<close>

definition env_models_unloaded :: env where
  "env_models_unloaded =
     sample_env\<lparr>CARD_DETECTOR := None, TEXT_DETECTOR := None, TH_READER := None,
       EN_READER := None, MIXED_READER := None\<rparr>"

definition env_undecodable :: env where
  "env_undecodable = sample_env\<lparr>imread := (\<lambda>path. None)\<rparr>"



definition sample_upload :: upload_file where
  "sample_upload = \<lparr>filename = ''card.png'', content = []\<rparr>"

section \<open>Properties of the Entity Mapper\<close>

lemma foldl_item_absent:
  "map_of raw k = None \<Longrightarrow> map_of (foldl map_entities_item ent raw) k = map_of ent k"
  by (induction raw arbitrary: ent)
     (auto simp: map_entities_item_def AList.update_conv' split: if_splits)

lemma foldl_item_skipped:
  "k \<in> set [''id_card'', ''en_name'']
   \<Longrightarrow> map_of (foldl map_entities_item ent raw) k = map_of ent k"
  by (induction raw arbitrary: ent)
     (auto simp: map_entities_item_def AList.update_conv' split: if_splits)

text \<open>
  C3, as amended. For a RawTextMap that has the key \<open>en_name\<close> and none of the keys
  \<open>en_prefix\<close>, \<open>en_firstname\<close>, \<open>en_lastname\<close>, \<open>en_name_raw\<close>: when the value splits
  on whitespace into at least three tokens, the first token is stored under
  \<open>en_prefix\<close>, the second under \<open>en_firstname\<close>, and the remaining tokens joined by one
  space under \<open>en_lastname\<close>; otherwise the whole raw string is stored under
  \<open>en_name_raw\<close> and none of the three name keys is present.
\<close>

theorem map_entities_en_name_split:
  assumes "map_of raw ''en_name'' = Some v"
    and "map_of raw ''en_prefix'' = None" and "map_of raw ''en_firstname'' = None"
    and "map_of raw ''en_lastname'' = None" and "map_of raw ''en_name_raw'' = None"
  shows "(3 \<le> length (py_split v) \<longrightarrow>
            map_of (map_entities raw) ''en_prefix'' = Some (py_split v ! 0)
          \<and> map_of (map_entities raw) ''en_firstname'' = Some (py_split v ! 1)
          \<and> map_of (map_entities raw) ''en_lastname''
              = Some (py_join '' '' (drop 2 (py_split v))))
       \<and> (length (py_split v) < 3 \<longrightarrow>
            map_of (map_entities raw) ''en_name_raw'' = Some v
          \<and> map_of (map_entities raw) ''en_prefix'' = None
          \<and> map_of (map_entities raw) ''en_firstname'' = None
          \<and> map_of (map_entities raw) ''en_lastname'' = None)"
  using assms
  by (cases "map_of raw ''id_card''")
     (simp_all add: map_entities_def Let_def foldl_item_absent AList.update_conv')

theorem map_entities_en_name_split_witness:
  "map_entities [(''en_name'', ''MR JOHN VAN DAMME'')]
     = [(''en_prefix'', ''MR''), (''en_firstname'', ''JOHN''), (''en_lastname'', ''VAN DAMME'')]
   \<and> map_of (map_entities [(''en_name'', ''MR JOHN VAN DAMME'')]) ''en_lastname''
       = Some ''VAN DAMME''
   \<and> map_entities [(''en_name'', ''JOHN'')] = [(''en_name_raw'', ''JOHN'')]
   \<and> map_of (map_entities [(''en_name'', ''JOHN'')]) ''en_prefix'' = None"
proof -
  have s1: "py_split ''MR JOHN VAN DAMME'' = [''MR'', ''JOHN'', ''VAN'', ''DAMME'']"
    by code_simp
  have s2: "py_split ''JOHN'' = [''JOHN'']"
    by code_simp
  have e1: "map_entities [(''en_name'', ''MR JOHN VAN DAMME'')]
     = [(''en_prefix'', ''MR''), (''en_firstname'', ''JOHN''), (''en_lastname'', ''VAN DAMME'')]"
    by code_simp
  have e2: "map_entities [(''en_name'', ''JOHN'')] = [(''en_name_raw'', ''JOHN'')]"
    by code_simp
  show ?thesis
    using map_entities_en_name_split [of "[(''en_name'', ''MR JOHN VAN DAMME'')]" "''MR JOHN VAN DAMME''"]
          map_entities_en_name_split [of "[(''en_name'', ''JOHN'')]" "''JOHN''"]
          e1 e2
    by (simp add: s1 s2)
qed

text \<open>
  C3 as stated fails when the RawTextMap also has one of the output keys: the loop over
  the remaining labels stores that entry after the split.
\<close>

theorem map_entities_en_name_split_counterexample:
  "map_of [(''en_name'', ''JOHN''), (''en_prefix'', ''MR'')] ''en_name'' = Some ''JOHN''
   \<and> length (py_split ''JOHN'') < 3
   \<and> map_of (map_entities [(''en_name'', ''JOHN''), (''en_prefix'', ''MR'')]) ''en_prefix''
       = Some ''MR''
   \<and> map_of [(''en_name'', ''MR JOHN VAN DAMME''), (''en_prefix'', ''DR'')] ''en_name''
       = Some ''MR JOHN VAN DAMME''
   \<and> 3 \<le> length (py_split ''MR JOHN VAN DAMME'')
   \<and> py_split ''MR JOHN VAN DAMME'' ! 0 = ''MR''
   \<and> map_of (map_entities [(''en_name'', ''MR JOHN VAN DAMME''), (''en_prefix'', ''DR'')])
        ''en_prefix'' = Some ''DR''"
  by code_simp

text \<open>
  C4, as amended. For a RawTextMap that has the key \<open>id_card\<close>, the value stored under
  \<open>id_card\<close> is the raw value with every character that is neither a digit nor
  whitespace deleted, then trimmed; whitespace between digit groups stays. On
  \<open>{"id_card": "1 2340 567-89\n"}\<close> the result is \<open>{"id_card": "1 2340 56789"}\<close>.
\<close>

theorem map_entities_id_card_clean:
  "(map_of raw ''id_card'' = Some v \<longrightarrow>
      map_of (map_entities raw) ''id_card''
        = Some (py_strip (filter (\<lambda>c. py_isdecimal c \<or> py_isspace c) v)))
   \<and> map_entities [(''id_card'', ''1 2340 567-89'' @ [CHR 0x0A])]
       = [(''id_card'', ''1 2340 56789'')]"
proof -
  have ex: "map_entities [(''id_card'', ''1 2340 567-89'' @ [CHR 0x0A])]
              = [(''id_card'', ''1 2340 56789'')]"
    by code_simp
  have gen: "map_of raw ''id_card'' = Some v \<longrightarrow>
      map_of (map_entities raw) ''id_card''
        = Some (py_strip (filter (\<lambda>c. py_isdecimal c \<or> py_isspace c) v))"
    by (cases "map_of raw ''en_name''")
       (simp_all add: map_entities_def Let_def foldl_item_skipped AList.update_conv'
          sub_non_digit_space_def)
  show ?thesis using ex gen by blast
qed

theorem map_entities_id_card_clean_witness:
  "map_of [(''id_card'', ''A1 2-3 '')] ''id_card'' = Some ''A1 2-3 ''
   \<and> map_of (map_entities [(''id_card'', ''A1 2-3 '')]) ''id_card'' = Some ''1 23''"
proof -
  have f: "py_strip (filter (\<lambda>c. py_isdecimal c \<or> py_isspace c) ''A1 2-3 '') = ''1 23''"
    by code_simp
  have h: "map_of [(''id_card'', ''A1 2-3 '')] ''id_card'' = Some ''A1 2-3 ''"
    by simp
  have "map_of (map_entities [(''id_card'', ''A1 2-3 '')]) ''id_card''
          = Some (py_strip (filter (\<lambda>c. py_isdecimal c \<or> py_isspace c) ''A1 2-3 ''))"
    using map_entities_id_card_clean [of "[(''id_card'', ''A1 2-3 '')]" "''A1 2-3 ''"] h
    by blast
  then show ?thesis using h by (simp only: f simp_thms)
qed

theorem map_entities_id_card_counterexample:
  "map_entities [(''id_card'', ''1 2340 567-89'' @ [CHR 0x0A])]
     \<noteq> [(''id_card'', ''1234056789'')]"
  by code_simp

section \<open>Properties of the Field Localizer\<close>

lemma first_best_snoc_keep:
  assumes "first_best nm xs d" and "nm (cls x) = label d \<longrightarrow> conf x \<le> confidence d"
  shows "first_best nm (xs @ [x]) d"
proof -
  from assms(1) obtain pre b post where
    h: "xs = pre @ b # post" "d = to_detection nm b"
       "\<forall>p \<in> set pre. nm (cls p) = label d \<longrightarrow> conf p < confidence d"
       "\<forall>p \<in> set post. nm (cls p) = label d \<longrightarrow> conf p \<le> confidence d"
    unfolding first_best_def by blast
  have "xs @ [x] = pre @ b # (post @ [x])" using h(1) by simp
  moreover have "\<forall>p \<in> set (post @ [x]). nm (cls p) = label d \<longrightarrow> conf p \<le> confidence d"
    using h(4) assms(2) by auto
  ultimately show ?thesis unfolding first_best_def using h(2,3) by blast
qed

lemma first_best_snoc_new:
  assumes "\<forall>p \<in> set xs. nm (cls p) = nm (cls x) \<longrightarrow> conf p < conf x"
  shows "first_best nm (xs @ [x]) (to_detection nm x)"
  unfolding first_best_def
  apply (rule exI[of _ xs], rule exI[of _ x], rule exI[of _ "[]"])
  using assms by (simp add: to_detection_def)

lemma first_best_label: "first_best nm xs d \<Longrightarrow> label d \<in> (\<lambda>b. nm (cls b)) ` set xs"
  unfolding first_best_def by (auto simp: to_detection_def)

lemma first_best_upper:
  "first_best nm xs d \<Longrightarrow> p \<in> set xs \<Longrightarrow> nm (cls p) = label d \<Longrightarrow> conf p \<le> confidence d"
  unfolding first_best_def by (auto simp: to_detection_def less_imp_le)

lemma dedup_inv_update:
  assumes "dedup_inv nm xs bd"
    and low: "\<forall>p \<in> set xs. nm (cls p) = nm (cls x) \<longrightarrow> conf p < conf x"
  shows "dedup_inv nm (xs @ [x]) (AList.update (nm (cls x)) (to_detection nm x) bd)"
proof -
  let ?l = "nm (cls x)"
  let ?bd' = "AList.update ?l (to_detection nm x) bd"
  have dist: "distinct (map fst bd)" and keys: "fst ` set bd = (\<lambda>b. nm (cls b)) ` set xs"
    and ent: "\<And>l d. (l, d) \<in> set bd \<Longrightarrow> label d = l \<and> first_best nm xs d"
    using assms(1) unfolding dedup_inv_def by auto
  have new: "first_best nm (xs @ [x]) (to_detection nm x)"
    using low by (rule first_best_snoc_new)
  have dist': "distinct (map fst ?bd')"
    using dist by (simp add: AList.distinct_update)
  have sub: "set ?bd' \<subseteq> insert (?l, to_detection nm x) (set bd)"
    by (induction bd) auto
  have entries: "\<forall>(l, d) \<in> set ?bd'. label d = l \<and> first_best nm (xs @ [x]) d"
  proof (clarify)
    fix l d assume a: "(l, d) \<in> set ?bd'"
    show "label d = l \<and> first_best nm (xs @ [x]) d"
    proof (cases "l = ?l")
      case True
      have "map_of ?bd' l = Some d" using dist' a by simp
      then have "d = to_detection nm x" using True by (simp add: AList.update_conv')
      then show ?thesis using new True by (simp add: to_detection_def)
    next
      case False
      then have m: "(l, d) \<in> set bd" using a sub by auto
      have "nm (cls x) = label d \<longrightarrow> conf x \<le> confidence d"
        using ent[OF m] False by auto
      then show ?thesis using ent[OF m] first_best_snoc_keep by blast
    qed
  qed
  have keys': "fst ` set ?bd' = (\<lambda>b. nm (cls b)) ` set (xs @ [x])"
    using keys by (auto simp: AList.dom_update)
  show ?thesis
    unfolding dedup_inv_def using dist' keys' entries by simp
qed

lemma dedup_inv_keep:
  assumes "dedup_inv nm xs bd"
    and "map_of bd (nm (cls x)) = Some d0" and "\<not> confidence d0 < conf x"
  shows "dedup_inv nm (xs @ [x]) bd"
proof -
  let ?l = "nm (cls x)"
  have dist: "distinct (map fst bd)" and keys: "fst ` set bd = (\<lambda>b. nm (cls b)) ` set xs"
    and ent: "\<And>l d. (l, d) \<in> set bd \<Longrightarrow> label d = l \<and> first_best nm xs d"
    using assms(1) unfolding dedup_inv_def by auto
  have mem: "(?l, d0) \<in> set bd" using assms(2) by (rule map_of_SomeD)
  have keys': "fst ` set bd = (\<lambda>b. nm (cls b)) ` set (xs @ [x])"
    using keys mem by force
  have "\<forall>(l, d) \<in> set bd. label d = l \<and> first_best nm (xs @ [x]) d"
  proof (clarify)
    fix l d assume m: "(l, d) \<in> set bd"
    have ld: "label d = l" "first_best nm xs d" using ent[OF m] by auto
    have "nm (cls x) = label d \<longrightarrow> conf x \<le> confidence d"
    proof
      assume "nm (cls x) = label d"
      then have "l = ?l" using ld by simp
      then have "map_of bd ?l = Some d" using m dist by simp
      then have "d = d0" using assms(2) by simp
      then show "conf x \<le> confidence d" using assms(3) by simp
    qed
    then show "label d = l \<and> first_best nm (xs @ [x]) d"
      using ld first_best_snoc_keep by blast
  qed
  then show ?thesis unfolding dedup_inv_def using dist keys' by simp
qed

lemma dedup_inv_step:
  assumes "dedup_inv nm xs bd"
  shows "dedup_inv nm (xs @ [x]) (keep_best nm bd x)"
proof (cases "map_of bd (nm (cls x))")
  case None
  have keys: "fst ` set bd = (\<lambda>b. nm (cls b)) ` set xs"
    using assms unfolding dedup_inv_def by simp
  have notin: "nm (cls x) \<notin> fst ` set bd" using None by (simp add: map_of_eq_None_iff)
  have low: "\<forall>p \<in> set xs. nm (cls p) = nm (cls x) \<longrightarrow> conf p < conf x"
  proof (clarify)
    fix p assume "p \<in> set xs" "nm (cls p) = nm (cls x)"
    then have "nm (cls x) \<in> (\<lambda>b. nm (cls b)) ` set xs" by (metis (mono_tags, lifting) image_eqI)
    with notin keys show "conf p < conf x" by simp
  qed
  have "keep_best nm bd x = AList.update (nm (cls x)) (to_detection nm x) bd"
    using None by (simp add: keep_best_def to_detection_def Let_def)
  then show ?thesis using dedup_inv_update[OF assms low] by simp
next
  case (Some d0)
  have ent: "\<And>l d. (l, d) \<in> set bd \<Longrightarrow> label d = l \<and> first_best nm xs d"
    using assms unfolding dedup_inv_def by auto
  have d0: "label d0 = nm (cls x)" "first_best nm xs d0"
    using ent[OF map_of_SomeD[OF Some]] by auto
  show ?thesis
  proof (cases "confidence d0 < conf x")
    case True
    have low: "\<forall>p \<in> set xs. nm (cls p) = nm (cls x) \<longrightarrow> conf p < conf x"
      using first_best_upper[OF d0(2)] d0(1) True by fastforce
    have "keep_best nm bd x = AList.update (nm (cls x)) (to_detection nm x) bd"
      using Some True by (simp add: keep_best_def to_detection_def Let_def)
    then show ?thesis using dedup_inv_update[OF assms low] by simp
  next
    case False
    have "keep_best nm bd x = bd"
      using Some False by (simp add: keep_best_def Let_def)
    then show ?thesis using dedup_inv_keep[OF assms Some False] by simp
  qed
qed

lemma dedup_inv_foldl: "dedup_inv nm xs (foldl (keep_best nm) [] xs)"
proof (induction xs rule: rev_induct)
  case Nil
  show ?case by (simp add: dedup_inv_def)
next
  case (snoc x xs)
  then show ?case by (simp add: dedup_inv_step)
qed

lemma labels_are_keys:
  "\<forall>(l, d) \<in> set bd. label d = l \<Longrightarrow> map label (map snd bd) = map fst bd"
  by (induction bd) auto

lemma best_per_label_props:
  "distinct (map label (best_per_label nm raw))"
  "set (map label (best_per_label nm raw)) = (\<lambda>b. nm (cls b)) ` set raw"
  "d \<in> set (best_per_label nm raw) \<Longrightarrow> first_best nm raw d"
proof -
  let ?bd = "foldl (keep_best nm) [] raw"
  have inv: "dedup_inv nm raw ?bd" by (rule dedup_inv_foldl)
  have lab: "map label (map snd ?bd) = map fst ?bd"
    using inv unfolding dedup_inv_def by (intro labels_are_keys) auto
  have "distinct (map fst ?bd)" using inv unfolding dedup_inv_def by blast
  then have d1: "distinct (map label (map snd ?bd))" by (simp only: lab)
  have "distinct (map snd ?bd) \<and> inj_on label (set (map snd ?bd))"
    using d1 by (simp only: distinct_map)
  then have "distinct (sort_key reading_key (map snd ?bd)) \<and> inj_on label (set (sort_key reading_key (map snd ?bd)))"
    by simp
  then show "distinct (map label (best_per_label nm raw))"
    unfolding best_per_label_def Let_def by (simp only: distinct_map)
  have keys: "fst ` set ?bd = (\<lambda>b. nm (cls b)) ` set raw"
    using inv unfolding dedup_inv_def by blast
  have "set (map label (sort_key reading_key (map snd ?bd))) = set (map label (map snd ?bd))"
    by (simp only: set_map set_sort)
  also have "\<dots> = fst ` set ?bd" by (simp only: lab set_map)
  finally show "set (map label (best_per_label nm raw)) = (\<lambda>b. nm (cls b)) ` set raw"
    unfolding best_per_label_def Let_def using keys by simp
  show "d \<in> set (best_per_label nm raw) \<Longrightarrow> first_best nm raw d"
    using inv unfolding dedup_inv_def best_per_label_def Let_def by auto
qed

lemma first_best_Max:
  assumes "first_best nm raw d"
  shows "confidence d = Max (conf ` {b \<in> set raw. nm (cls b) = label d})"
proof -
  have fin: "finite (conf ` {b \<in> set raw. nm (cls b) = label d})" by simp
  have mem: "confidence d \<in> conf ` {b \<in> set raw. nm (cls b) = label d}"
    using assms unfolding first_best_def by (auto simp: to_detection_def)
  have ub: "\<And>c. c \<in> conf ` {b \<in> set raw. nm (cls b) = label d} \<Longrightarrow> c \<le> confidence d"
    using first_best_upper[OF assms] by auto
  show ?thesis using Max_eqI[OF fin ub mem] by simp
qed

lemma detect_text_fields_run:
  "predict m \<lparr>arg_conf = 1 / 4, arg_iou = None\<rparr> img = Inr raw
   \<Longrightarrow> detect_text_fields m (Some img) = Inr (best_per_label (names m) raw, Some raw)"
  by (simp add: detect_text_fields_def)

lemma detect_text_fields_easyocr_run:
  "predict m \<lparr>arg_conf = 1 / 100, arg_iou = Some (1 / 4)\<rparr> img = Inr raw
   \<Longrightarrow> detect_text_fields_easyocr m (Some img)
       = Inr (best_per_label (names m) raw, Some raw)"
  by (simp add: detect_text_fields_easyocr_def)

lemma best_per_label_best:
  "distinct (map label (best_per_label nm raw))
   \<and> set (map label (best_per_label nm raw)) = (\<lambda>b. nm (cls b)) ` set raw
   \<and> (\<forall>d \<in> set (best_per_label nm raw).
         confidence d = Max (conf ` {b \<in> set raw. nm (cls b) = label d})
         \<and> first_best nm raw d)"
  using best_per_label_props(1,2)[of nm raw] best_per_label_props(3)[of _ nm raw]
        first_best_Max[of nm raw]
  by blast

text \<open>
  C2. Whatever raw boxes the field detector returns on the cropped card,
  \<open>detect_text_fields\<close> (in either file, each with its own detector arguments) returns
  Detections with pairwise different labels, whose labels are exactly the labels of
  the raw boxes, and each Detection has the greatest confidence among the raw boxes of
  its label and comes from the first raw box that reaches it: a later box replaces the
  kept one only with a strictly greater confidence.
\<close>

theorem detect_text_fields_one_best_per_label:
  "(predict m \<lparr>arg_conf = 1 / 4, arg_iou = None\<rparr> img = Inr raw \<longrightarrow>
      (\<exists>out. detect_text_fields m (Some img) = Inr (out, Some raw)
         \<and> distinct (map label out)
         \<and> set (map label out) = (\<lambda>b. names m (cls b)) ` set raw
         \<and> (\<forall>d \<in> set out.
               confidence d = Max (conf ` {b \<in> set raw. names m (cls b) = label d})
               \<and> first_best (names m) raw d)))
   \<and> (predict m \<lparr>arg_conf = 1 / 100, arg_iou = Some (1 / 4)\<rparr> img = Inr raw \<longrightarrow>
      (\<exists>out. detect_text_fields_easyocr m (Some img) = Inr (out, Some raw)
         \<and> distinct (map label out)
         \<and> set (map label out) = (\<lambda>b. names m (cls b)) ` set raw
         \<and> (\<forall>d \<in> set out.
               confidence d = Max (conf ` {b \<in> set raw. names m (cls b) = label d})
               \<and> first_best (names m) raw d)))"
proof (intro conjI impI)
  assume "predict m \<lparr>arg_conf = 1 / 4, arg_iou = None\<rparr> img = Inr raw"
  from detect_text_fields_run[OF this] best_per_label_best[of "names m" raw]
  show "\<exists>out. detect_text_fields m (Some img) = Inr (out, Some raw)
         \<and> distinct (map label out)
         \<and> set (map label out) = (\<lambda>b. names m (cls b)) ` set raw
         \<and> (\<forall>d \<in> set out.
               confidence d = Max (conf ` {b \<in> set raw. names m (cls b) = label d})
               \<and> first_best (names m) raw d)"
    by blast
next
  assume "predict m \<lparr>arg_conf = 1 / 100, arg_iou = Some (1 / 4)\<rparr> img = Inr raw"
  from detect_text_fields_easyocr_run[OF this] best_per_label_best[of "names m" raw]
  show "\<exists>out. detect_text_fields_easyocr m (Some img) = Inr (out, Some raw)
         \<and> distinct (map label out)
         \<and> set (map label out) = (\<lambda>b. names m (cls b)) ` set raw
         \<and> (\<forall>d \<in> set out.
               confidence d = Max (conf ` {b \<in> set raw. names m (cls b) = label d})
               \<and> first_best (names m) raw d)"
    by blast
qed

theorem detect_text_fields_one_best_per_label_witness:
  "predict (const_model duplicate_boxes) \<lparr>arg_conf = 1 / 4, arg_iou = None\<rparr> one_pixel
     = Inr duplicate_boxes
   \<and> predict (const_model duplicate_boxes) \<lparr>arg_conf = 1 / 100, arg_iou = Some (1 / 4)\<rparr>
         one_pixel
       = Inr duplicate_boxes
   \<and> detect_text_fields (const_model duplicate_boxes) (Some one_pixel)
       = Inr (duplicate_fields, Some duplicate_boxes)
   \<and> detect_text_fields_easyocr (const_model duplicate_boxes) (Some one_pixel)
       = Inr (duplicate_fields, Some duplicate_boxes)
   \<and> distinct (map label duplicate_fields)
   \<and> set (map label duplicate_fields) = {''religion'', ''id_card''}
   \<and> confidence (duplicate_fields ! 1)
       = Max (conf ` {b \<in> set duplicate_boxes. sample_names (cls b) = ''id_card''})
   \<and> first_best sample_names duplicate_boxes (duplicate_fields ! 1)
   \<and> box (duplicate_fields ! 1) = (5, 6, 7, 8)"
proof -
  have p1: "predict (const_model duplicate_boxes) \<lparr>arg_conf = 1 / 4, arg_iou = None\<rparr>
              one_pixel = Inr duplicate_boxes"
    and p2: "predict (const_model duplicate_boxes)
               \<lparr>arg_conf = 1 / 100, arg_iou = Some (1 / 4)\<rparr> one_pixel = Inr duplicate_boxes"
    by (simp_all add: const_model_def)
  have h1: "detect_text_fields (const_model duplicate_boxes) (Some one_pixel)
             = Inr (duplicate_fields, Some duplicate_boxes)"
    by code_simp
  have h2: "detect_text_fields_easyocr (const_model duplicate_boxes) (Some one_pixel)
             = Inr (duplicate_fields, Some duplicate_boxes)"
    by code_simp
  have nm: "names (const_model duplicate_boxes) = sample_names"
    by (simp add: const_model_def)
  have labs: "(\<lambda>b. sample_names (cls b)) ` set duplicate_boxes = {''religion'', ''id_card''}"
    by (auto simp: duplicate_boxes_def sample_names_def)
  have d1: "duplicate_fields ! 1 \<in> set duplicate_fields"
    "label (duplicate_fields ! 1) = ''id_card''"
    "box (duplicate_fields ! 1) = (5, 6, 7, 8)"
    by (simp_all add: duplicate_fields_def)
  note t = detect_text_fields_one_best_per_label
    [of "const_model duplicate_boxes" one_pixel duplicate_boxes, unfolded nm labs]
  from t p1 h1 have a: "distinct (map label duplicate_fields)
       \<and> set (map label duplicate_fields) = {''religion'', ''id_card''}
       \<and> (\<forall>d \<in> set duplicate_fields.
               confidence d
                 = Max (conf ` {b \<in> set duplicate_boxes. sample_names (cls b) = label d})
               \<and> first_best sample_names duplicate_boxes d)"
    by auto
  from t p2 h2 have b: "distinct (map label duplicate_fields)
       \<and> (\<forall>d \<in> set duplicate_fields. first_best sample_names duplicate_boxes d)"
    by auto
  from a d1(1) have "confidence (duplicate_fields ! 1)
       = Max (conf ` {b \<in> set duplicate_boxes.
                       sample_names (cls b) = label (duplicate_fields ! 1)})"
    by blast
  then have c: "confidence (duplicate_fields ! 1)
       = Max (conf ` {b \<in> set duplicate_boxes. sample_names (cls b) = ''id_card''})"
    unfolding d1(2) .
  from b d1(1) have e: "first_best sample_names duplicate_boxes (duplicate_fields ! 1)"
    by blast
  show ?thesis using p1 p2 h1 h2 a c e d1(3) by blast
qed


text \<open>The order on the keys is the one of Python's tuples: first \<open>y1\<close>, then \<open>x1\<close>.\<close>

lemma reading_key_le:
  "reading_key d \<le> reading_key d' \<longleftrightarrow>
     fst (snd (box d)) < fst (snd (box d'))
     \<or> fst (snd (box d)) = fst (snd (box d')) \<and> fst (box d) \<le> fst (box d')"
  by (cases "box d"; cases "box d'") (auto simp: reading_key_def)




section \<open>Properties of the Field Reader\<close>

lemma read_fields_skip:
  "\<not> nonempty_region img f \<Longrightarrow> read_fields env img (f # fs) acc = read_fields env img fs acc"
  by (simp add: nonempty_region_def Let_def)

lemma read_fields_fail:
  "nonempty_region img f
   \<Longrightarrow> image_to_string env (field_region img f) (lang_hint (label f)) ''--psm 7'' = Inl e
   \<Longrightarrow> read_fields env img (f # fs) acc
       = (Inl e, [ImageToString (field_region img f) (lang_hint (label f)) ''--psm 7''])"
  by (simp add: nonempty_region_def lang_hint_def Let_def)

lemma read_fields_ok:
  "nonempty_region img f
   \<Longrightarrow> image_to_string env (field_region img f) (lang_hint (label f)) ''--psm 7'' = Inr out
   \<Longrightarrow> read_fields env img (f # fs) acc
       = (fst (read_fields env img fs (store_text (label f) out acc)),
          ImageToString (field_region img f) (lang_hint (label f)) ''--psm 7''
            # snd (read_fields env img fs (store_text (label f) out acc)))"
  by (simp add: nonempty_region_def lang_hint_def store_text_def Let_def split: prod.splits)

lemma read_fields_easyocr_skip:
  "\<not> nonempty_region img f
   \<Longrightarrow> read_fields_easyocr th en mx img (f # fs) acc = read_fields_easyocr th en mx img fs acc"
  by (simp add: nonempty_region_def Let_def)

lemma read_fields_easyocr_fail:
  "nonempty_region img f
   \<Longrightarrow> readtext (pick_reader th en mx (label f)) (field_region img f) = Inl e
   \<Longrightarrow> read_fields_easyocr th en mx img (f # fs) acc
       = (Inl e, [Readtext (lang_list (pick_reader th en mx (label f))) (field_region img f)])"
  by (simp add: nonempty_region_def pick_reader_def Let_def)

lemma read_fields_easyocr_ok:
  "nonempty_region img f
   \<Longrightarrow> readtext (pick_reader th en mx (label f)) (field_region img f) = Inr result
   \<Longrightarrow> read_fields_easyocr th en mx img (f # fs) acc
       = (fst (read_fields_easyocr th en mx img fs (store_result (label f) result acc)),
          Readtext (lang_list (pick_reader th en mx (label f))) (field_region img f)
            # snd (read_fields_easyocr th en mx img fs (store_result (label f) result acc)))"
  by (simp add: nonempty_region_def pick_reader_def store_result_def Let_def split: prod.splits)

lemma read_fields_filter:
  "read_fields env img (filter (nonempty_region img) fs) acc = read_fields env img fs acc"
proof (induction fs arbitrary: acc)
  case Nil
  show ?case by simp
next
  case (Cons f fs)
  show ?case
  proof (cases "nonempty_region img f")
    case False
    then show ?thesis using Cons.IH by (simp add: read_fields_skip del: read_fields.simps)
  next
    case True
    show ?thesis
    proof (cases "image_to_string env (field_region img f) (lang_hint (label f)) ''--psm 7''")
      case (Inl e)
      then show ?thesis using True by (simp add: read_fields_fail del: read_fields.simps)
    next
      case (Inr out)
      then show ?thesis using True Cons.IH
        by (simp add: read_fields_ok del: read_fields.simps)
    qed
  qed
qed

lemma read_fields_events:
  "ev \<in> set (snd (read_fields env img fs acc))
   \<Longrightarrow> \<exists>g \<in> set fs. nonempty_region img g
         \<and> ev = ImageToString (field_region img g) (lang_hint (label g)) ''--psm 7''"
proof (induction fs arbitrary: acc)
  case Nil
  then show ?case by simp
next
  case (Cons f fs)
  show ?case
  proof (cases "nonempty_region img f")
    case False
    then have "ev \<in> set (snd (read_fields env img fs acc))"
      using Cons.prems by (simp add: read_fields_skip del: read_fields.simps)
    from Cons.IH[OF this] show ?thesis by auto
  next
    case True
    show ?thesis
    proof (cases "image_to_string env (field_region img f) (lang_hint (label f)) ''--psm 7''")
      case (Inl e)
      then show ?thesis using Cons.prems True
        by (simp add: read_fields_fail del: read_fields.simps)
    next
      case (Inr out)
      then have "ev = ImageToString (field_region img f) (lang_hint (label f)) ''--psm 7''
                 \<or> ev \<in> set (snd (read_fields env img fs (store_text (label f) out acc)))"
        using Cons.prems True by (simp add: read_fields_ok del: read_fields.simps)
      then show ?thesis
      proof
        assume "ev = ImageToString (field_region img f) (lang_hint (label f)) ''--psm 7''"
        then show ?thesis using True by auto
      next
        assume "ev \<in> set (snd (read_fields env img fs (store_text (label f) out acc)))"
        from Cons.IH[OF this] show ?thesis by auto
      qed
    qed
  qed
qed

lemma read_fields_keys:
  "fst (read_fields env img fs acc) = Inr d \<Longrightarrow> map_of d k = Some v
   \<Longrightarrow> map_of acc k \<noteq> None \<or> (\<exists>g \<in> set fs. nonempty_region img g \<and> label g = k)"
proof (induction fs arbitrary: acc)
  case Nil
  then show ?case by simp
next
  case (Cons f fs)
  show ?case
  proof (cases "nonempty_region img f")
    case False
    then have "fst (read_fields env img fs acc) = Inr d"
      using Cons.prems(1) by (simp add: read_fields_skip del: read_fields.simps)
    from Cons.IH[OF this Cons.prems(2)] show ?thesis by auto
  next
    case True
    show ?thesis
    proof (cases "image_to_string env (field_region img f) (lang_hint (label f)) ''--psm 7''")
      case (Inl e)
      then show ?thesis using Cons.prems(1) True
        by (simp add: read_fields_fail del: read_fields.simps)
    next
      case (Inr out)
      then have "fst (read_fields env img fs (store_text (label f) out acc)) = Inr d"
        using Cons.prems(1) True by (simp add: read_fields_ok del: read_fields.simps)
      from Cons.IH[OF this Cons.prems(2)]
      have "map_of (store_text (label f) out acc) k \<noteq> None
            \<or> (\<exists>g \<in> set fs. nonempty_region img g \<and> label g = k)" .
      then show ?thesis using True
        by (auto simp: store_text_def AList.update_conv' split: if_splits)
    qed
  qed
qed

lemma read_fields_easyocr_filter:
  "read_fields_easyocr th en mx img (filter (nonempty_region img) fs) acc
     = read_fields_easyocr th en mx img fs acc"
proof (induction fs arbitrary: acc)
  case Nil
  show ?case by simp
next
  case (Cons f fs)
  show ?case
  proof (cases "nonempty_region img f")
    case False
    then show ?thesis using Cons.IH
      by (simp add: read_fields_easyocr_skip del: read_fields_easyocr.simps)
  next
    case True
    show ?thesis
    proof (cases "readtext (pick_reader th en mx (label f)) (field_region img f)")
      case (Inl e)
      then show ?thesis using True
        by (simp add: read_fields_easyocr_fail del: read_fields_easyocr.simps)
    next
      case (Inr out)
      then show ?thesis using True Cons.IH
        by (simp add: read_fields_easyocr_ok del: read_fields_easyocr.simps)
    qed
  qed
qed

lemma read_fields_easyocr_events:
  "ev \<in> set (snd (read_fields_easyocr th en mx img fs acc))
   \<Longrightarrow> \<exists>g \<in> set fs. nonempty_region img g
         \<and> ev = Readtext (lang_list (pick_reader th en mx (label g))) (field_region img g)"
proof (induction fs arbitrary: acc)
  case Nil
  then show ?case by simp
next
  case (Cons f fs)
  show ?case
  proof (cases "nonempty_region img f")
    case False
    then have "ev \<in> set (snd (read_fields_easyocr th en mx img fs acc))"
      using Cons.prems by (simp add: read_fields_easyocr_skip del: read_fields_easyocr.simps)
    from Cons.IH[OF this] show ?thesis by auto
  next
    case True
    show ?thesis
    proof (cases "readtext (pick_reader th en mx (label f)) (field_region img f)")
      case (Inl e)
      then show ?thesis using Cons.prems True
        by (simp add: read_fields_easyocr_fail del: read_fields_easyocr.simps)
    next
      case (Inr out)
      then have "ev = Readtext (lang_list (pick_reader th en mx (label f))) (field_region img f)
                 \<or> ev \<in> set (snd (read_fields_easyocr th en mx img fs
                                      (store_result (label f) out acc)))"
        using Cons.prems True
        by (simp add: read_fields_easyocr_ok del: read_fields_easyocr.simps)
      then show ?thesis
      proof
        assume "ev = Readtext (lang_list (pick_reader th en mx (label f))) (field_region img f)"
        then show ?thesis using True by auto
      next
        assume "ev \<in> set (snd (read_fields_easyocr th en mx img fs
                                  (store_result (label f) out acc)))"
        from Cons.IH[OF this] show ?thesis by auto
      qed
    qed
  qed
qed

lemma read_fields_easyocr_keys:
  "fst (read_fields_easyocr th en mx img fs acc) = Inr d \<Longrightarrow> map_of d k = Some v
   \<Longrightarrow> map_of acc k \<noteq> None \<or> (\<exists>g \<in> set fs. nonempty_region img g \<and> label g = k)"
proof (induction fs arbitrary: acc)
  case Nil
  then show ?case by simp
next
  case (Cons f fs)
  show ?case
  proof (cases "nonempty_region img f")
    case False
    then have "fst (read_fields_easyocr th en mx img fs acc) = Inr d"
      using Cons.prems(1)
      by (simp add: read_fields_easyocr_skip del: read_fields_easyocr.simps)
    from Cons.IH[OF this Cons.prems(2)] show ?thesis by auto
  next
    case True
    show ?thesis
    proof (cases "readtext (pick_reader th en mx (label f)) (field_region img f)")
      case (Inl e)
      then show ?thesis using Cons.prems(1) True
        by (simp add: read_fields_easyocr_fail del: read_fields_easyocr.simps)
    next
      case (Inr out)
      then have "fst (read_fields_easyocr th en mx img fs (store_result (label f) out acc))
                   = Inr d"
        using Cons.prems(1) True
        by (simp add: read_fields_easyocr_ok del: read_fields_easyocr.simps)
      from Cons.IH[OF this Cons.prems(2)]
      have "map_of (store_result (label f) out acc) k \<noteq> None
            \<or> (\<exists>g \<in> set fs. nonempty_region img g \<and> label g = k)" .
      then show ?thesis using True
        by (auto simp: store_result_def AList.update_conv' split: if_splits)
    qed
  qed
qed

lemma filter_nonempty_removeAll:
  "\<not> nonempty_region img f
   \<Longrightarrow> filter (nonempty_region img) (removeAll f fs) = filter (nonempty_region img) fs"
  by (induction fs) auto

lemma distinct_label_unique:
  "distinct (map label fs) \<Longrightarrow> f \<in> set fs \<Longrightarrow> g \<in> set fs \<Longrightarrow> label g = label f \<Longrightarrow> g = f"
  by (meson distinct_map inj_onD)

text \<open>
  C6. Let \<open>f\<close> be a field of a FieldSet (labels pairwise different) whose box slices to a
  sub-image of size zero. In either file the Field Reader behaves as on the FieldSet
  without \<open>f\<close>: same outcome and same calls of the OCR backend, so the omission makes no
  request fail; no call of the backend receives the region of \<open>f\<close>; and a RawTextMap
  that is returned has no entry for the label of \<open>f\<close>.
\<close>

theorem read_text_from_fields_skips_empty_region:
  assumes "distinct (map label fs)" and "f \<in> set fs"
    and "img_size (field_region img f) = 0"
  shows "read_text_from_fields env img fs = read_text_from_fields env img (removeAll f fs)
       \<and> (\<forall>ev \<in> set (snd (read_text_from_fields env img fs)).
             \<forall>lang config. ev \<noteq> ImageToString (field_region img f) lang config)
       \<and> (\<forall>d. fst (read_text_from_fields env img fs) = Inr d \<longrightarrow> map_of d (label f) = None)
       \<and> read_text_from_fields_easyocr th en mx img fs
           = read_text_from_fields_easyocr th en mx img (removeAll f fs)
       \<and> (\<forall>ev \<in> set (snd (read_text_from_fields_easyocr th en mx img fs)).
             \<forall>langs. ev \<noteq> Readtext langs (field_region img f))
       \<and> (\<forall>d. fst (read_text_from_fields_easyocr th en mx img fs) = Inr d
              \<longrightarrow> map_of d (label f) = None)"
proof -
  have empty: "\<not> nonempty_region img f"
    using assms(3) by (simp add: nonempty_region_def)
  have same: "read_text_from_fields env img fs = read_text_from_fields env img (removeAll f fs)"
    unfolding read_text_from_fields_def
    using read_fields_filter[of env img fs "[]"]
          read_fields_filter[of env img "removeAll f fs" "[]"]
          filter_nonempty_removeAll[OF empty, of fs]
    by simp
  have same_e: "read_text_from_fields_easyocr th en mx img fs
                  = read_text_from_fields_easyocr th en mx img (removeAll f fs)"
    unfolding read_text_from_fields_easyocr_def
    using read_fields_easyocr_filter[of th en mx img fs "[]"]
          read_fields_easyocr_filter[of th en mx img "removeAll f fs" "[]"]
          filter_nonempty_removeAll[OF empty, of fs]
    by simp
  have ev: "\<forall>ev \<in> set (snd (read_text_from_fields env img fs)).
              \<forall>lang config. ev \<noteq> ImageToString (field_region img f) lang config"
  proof (intro ballI allI notI)
    fix ev lang config
    assume a: "ev \<in> set (snd (read_text_from_fields env img fs))"
      and b: "ev = ImageToString (field_region img f) lang config"
    from read_fields_events[OF a[unfolded read_text_from_fields_def]]
    obtain g where "nonempty_region img g"
      and "ev = ImageToString (field_region img g) (lang_hint (label g)) ''--psm 7''"
      by blast
    with b empty show False by (simp add: nonempty_region_def)
  qed
  have ev_e: "\<forall>ev \<in> set (snd (read_text_from_fields_easyocr th en mx img fs)).
              \<forall>langs. ev \<noteq> Readtext langs (field_region img f)"
  proof (intro ballI allI notI)
    fix ev langs
    assume a: "ev \<in> set (snd (read_text_from_fields_easyocr th en mx img fs))"
      and b: "ev = Readtext langs (field_region img f)"
    from read_fields_easyocr_events[OF a[unfolded read_text_from_fields_easyocr_def]]
    obtain g where "nonempty_region img g"
      and "ev = Readtext (lang_list (pick_reader th en mx (label g))) (field_region img g)"
      by blast
    with b empty show False by (simp add: nonempty_region_def)
  qed
  have key: "\<forall>d. fst (read_text_from_fields env img fs) = Inr d \<longrightarrow> map_of d (label f) = None"
  proof (intro allI impI)
    fix d assume r: "fst (read_text_from_fields env img fs) = Inr d"
    show "map_of d (label f) = None"
    proof (rule ccontr)
      assume "map_of d (label f) \<noteq> None"
      then obtain v where v: "map_of d (label f) = Some v" by blast
      from read_fields_keys[OF r[unfolded read_text_from_fields_def] v]
      obtain g where g: "g \<in> set fs" "nonempty_region img g" "label g = label f"
        by auto
      then have "g = f" using distinct_label_unique[OF assms(1,2)] by blast
      with g(2) empty show False by simp
    qed
  qed
  have key_e: "\<forall>d. fst (read_text_from_fields_easyocr th en mx img fs) = Inr d
                 \<longrightarrow> map_of d (label f) = None"
  proof (intro allI impI)
    fix d assume r: "fst (read_text_from_fields_easyocr th en mx img fs) = Inr d"
    show "map_of d (label f) = None"
    proof (rule ccontr)
      assume "map_of d (label f) \<noteq> None"
      then obtain v where v: "map_of d (label f) = Some v" by blast
      from read_fields_easyocr_keys[OF r[unfolded read_text_from_fields_easyocr_def] v]
      obtain g where g: "g \<in> set fs" "nonempty_region img g" "label g = label f"
        by auto
      then have "g = f" using distinct_label_unique[OF assms(1,2)] by blast
      with g(2) empty show False by simp
    qed
  qed
  show ?thesis using same ev key same_e ev_e key_e by blast
qed

theorem read_text_from_fields_skips_empty_region_witness:
  "distinct (map label [religion_field, empty_field, id_card_field])
   \<and> empty_field \<in> set [religion_field, empty_field, id_card_field]
   \<and> img_size (field_region sample_card empty_field) = 0
   \<and> read_text_from_fields sample_env sample_card [religion_field, empty_field, id_card_field]
       = read_text_from_fields sample_env sample_card [religion_field, id_card_field]
   \<and> fst (read_text_from_fields sample_env sample_card
            [religion_field, empty_field, id_card_field])
       = Inr [(''religion'', ''12-34''), (''id_card'', ''12-34'')]
   \<and> map_of [(''religion'', ''12-34''), (''id_card'', ''12-34'')] ''first_name_th'' = None
   \<and> ImageToString (field_region sample_card empty_field) ''tha'' ''--psm 7''
       \<notin> set (snd (read_text_from_fields sample_env sample_card
                      [religion_field, empty_field, id_card_field]))"
proof -
  let ?fs = "[religion_field, empty_field, id_card_field]"
  have h1: "distinct (map label ?fs)"
    by (simp add: religion_field_def empty_field_def id_card_field_def)
  have h2: "empty_field \<in> set ?fs" by simp
  have h3: "img_size (field_region sample_card empty_field) = 0"
    by code_simp
  have rm: "removeAll empty_field ?fs = [religion_field, id_card_field]"
    by (simp add: religion_field_def empty_field_def id_card_field_def)
  have lb: "label empty_field = ''first_name_th''"
    by (simp add: empty_field_def)
  have r: "fst (read_text_from_fields sample_env sample_card ?fs)
             = Inr [(''religion'', ''12-34''), (''id_card'', ''12-34'')]"
    by code_simp
  note t = read_text_from_fields_skips_empty_region
    [OF h1 h2 h3, of sample_env "sample_reader [''th'']" "sample_reader [''en'']"
       "sample_reader [''th'', ''en'']", unfolded rm lb]
  from t have a: "read_text_from_fields sample_env sample_card ?fs
       = read_text_from_fields sample_env sample_card [religion_field, id_card_field]"
    by blast
  from t r have b: "map_of [(''religion'', ''12-34''), (''id_card'', ''12-34'')] ''first_name_th''
                      = None"
    by blast
  from t have c: "ImageToString (field_region sample_card empty_field) ''tha'' ''--psm 7''
       \<notin> set (snd (read_text_from_fields sample_env sample_card ?fs))"
    by blast
  show ?thesis using h1 h2 h3 a r b c by blast
qed

text \<open>
  C7, as amended. Every call of the OCR backend is made for a field of the FieldSet and
  takes its language from a fixed table of labels, and a field with a non-empty region
  is read with that language. In the EasyOCR variant the Thai reader reads
  \<open>prefix_name_th\<close>, \<open>first_name_th\<close>, \<open>last_name_th\<close>, \<open>date_of_birth_th\<close>,
  \<open>date_of_expity_th\<close> and \<open>religion\<close>, the English reader reads \<open>prefix_name_en\<close>,
  \<open>first_name_en\<close>, \<open>last_name_en\<close>, \<open>date_of_birth_en\<close> and \<open>date_of_expity_en\<close>, and
  the mixed reader reads every other label. In the pytesseract variant only the three
  Thai name labels get \<open>tha\<close> and only the three English name labels get \<open>eng\<close>; every
  other label, religion and the dates among them, gets \<open>tha+eng\<close>.
\<close>

theorem read_text_from_fields_language_table:
  "(ev \<in> set (snd (read_text_from_fields_easyocr th en mx img fs)) \<longrightarrow>
      (\<exists>g \<in> set fs. ev = Readtext
          (lang_list
             (if label g \<in> {''prefix_name_th'', ''first_name_th'', ''last_name_th'',
                             ''date_of_birth_th'', ''date_of_expity_th'', ''religion''} then th
              else if label g \<in> {''prefix_name_en'', ''first_name_en'', ''last_name_en'',
                                  ''date_of_birth_en'', ''date_of_expity_en''} then en
              else mx))
          (field_region img g)))
   \<and> (0 < img_size (field_region img f) \<longrightarrow>
        snd (read_text_from_fields_easyocr th en mx img [f])
          = [Readtext
               (lang_list
                  (if label f \<in> {''prefix_name_th'', ''first_name_th'', ''last_name_th'',
                                  ''date_of_birth_th'', ''date_of_expity_th'', ''religion''} then th
                   else if label f \<in> {''prefix_name_en'', ''first_name_en'', ''last_name_en'',
                                       ''date_of_birth_en'', ''date_of_expity_en''} then en
                   else mx))
               (field_region img f)])
   \<and> (ev \<in> set (snd (read_text_from_fields env img fs)) \<longrightarrow>
        (\<exists>g \<in> set fs. ev = ImageToString (field_region img g)
            (if label g \<in> {''prefix_name_th'', ''first_name_th'', ''last_name_th''} then ''tha''
             else if label g \<in> {''prefix_name_en'', ''first_name_en'', ''last_name_en''}
                  then ''eng''
             else ''tha+eng'')
            ''--psm 7''))
   \<and> (0 < img_size (field_region img f) \<longrightarrow>
        snd (read_text_from_fields env img [f])
          = [ImageToString (field_region img f)
               (if label f \<in> {''prefix_name_th'', ''first_name_th'', ''last_name_th''} then ''tha''
                else if label f \<in> {''prefix_name_en'', ''first_name_en'', ''last_name_en''}
                     then ''eng''
                else ''tha+eng'')
               ''--psm 7''])"
proof -
  have pr: "\<And>l. pick_reader th en mx l =
              (if l \<in> {''prefix_name_th'', ''first_name_th'', ''last_name_th'',
                        ''date_of_birth_th'', ''date_of_expity_th'', ''religion''} then th
               else if l \<in> {''prefix_name_en'', ''first_name_en'', ''last_name_en'',
                             ''date_of_birth_en'', ''date_of_expity_en''} then en
               else mx)"
    by (simp add: pick_reader_def th_labels_easyocr_def en_labels_easyocr_def)
  have lh: "\<And>l. lang_hint l =
              (if l \<in> {''prefix_name_th'', ''first_name_th'', ''last_name_th''} then ''tha''
               else if l \<in> {''prefix_name_en'', ''first_name_en'', ''last_name_en''} then ''eng''
               else ''tha+eng'')"
    by (simp add: lang_hint_def th_labels_def en_labels_def)
  have e1: "ev \<in> set (snd (read_text_from_fields_easyocr th en mx img fs)) \<longrightarrow>
      (\<exists>g \<in> set fs. ev = Readtext (lang_list (pick_reader th en mx (label g)))
                            (field_region img g))"
    unfolding read_text_from_fields_easyocr_def
    using read_fields_easyocr_events[of ev th en mx img fs "[]"] by blast
  have t1: "ev \<in> set (snd (read_text_from_fields env img fs)) \<longrightarrow>
      (\<exists>g \<in> set fs. ev = ImageToString (field_region img g) (lang_hint (label g)) ''--psm 7'')"
    unfolding read_text_from_fields_def
    using read_fields_events[of ev env img fs "[]"] by blast
  have e2: "0 < img_size (field_region img f) \<longrightarrow>
        snd (read_text_from_fields_easyocr th en mx img [f])
          = [Readtext (lang_list (pick_reader th en mx (label f))) (field_region img f)]"
  proof
    assume "0 < img_size (field_region img f)"
    then have ne: "nonempty_region img f" by (simp add: nonempty_region_def)
    show "snd (read_text_from_fields_easyocr th en mx img [f])
          = [Readtext (lang_list (pick_reader th en mx (label f))) (field_region img f)]"
    proof (cases "readtext (pick_reader th en mx (label f)) (field_region img f)")
      case (Inl e)
      then show ?thesis unfolding read_text_from_fields_easyocr_def
        by (simp add: read_fields_easyocr_fail[OF ne] del: read_fields_easyocr.simps)
    next
      case (Inr out)
      then show ?thesis unfolding read_text_from_fields_easyocr_def
        by (simp add: read_fields_easyocr_ok[OF ne] del: read_fields_easyocr.simps(2))
    qed
  qed
  have t2: "0 < img_size (field_region img f) \<longrightarrow>
        snd (read_text_from_fields env img [f])
          = [ImageToString (field_region img f) (lang_hint (label f)) ''--psm 7'']"
  proof
    assume "0 < img_size (field_region img f)"
    then have ne: "nonempty_region img f" by (simp add: nonempty_region_def)
    show "snd (read_text_from_fields env img [f])
          = [ImageToString (field_region img f) (lang_hint (label f)) ''--psm 7'']"
    proof (cases "image_to_string env (field_region img f) (lang_hint (label f)) ''--psm 7''")
      case (Inl e)
      then show ?thesis unfolding read_text_from_fields_def
        by (simp add: read_fields_fail[OF ne] del: read_fields.simps)
    next
      case (Inr out)
      then show ?thesis unfolding read_text_from_fields_def
        by (simp add: read_fields_ok[OF ne] del: read_fields.simps(2))
    qed
  qed
  show ?thesis using e1 e2 t1 t2 unfolding pr lh by blast
qed

theorem read_text_from_fields_language_table_witness:
  "0 < img_size (field_region sample_card religion_field)
   \<and> snd (read_text_from_fields_easyocr (sample_reader [''th'']) (sample_reader [''en''])
           (sample_reader [''th'', ''en'']) sample_card [religion_field])
       = [Readtext [''th''] (field_region sample_card religion_field)]
   \<and> snd (read_text_from_fields sample_env sample_card [religion_field])
       = [ImageToString (field_region sample_card religion_field) ''tha+eng'' ''--psm 7'']
   \<and> Readtext [''th'', ''en''] (field_region sample_card id_card_field)
       \<in> set (snd (read_text_from_fields_easyocr (sample_reader [''th''])
                     (sample_reader [''en'']) (sample_reader [''th'', ''en'']) sample_card
                     [religion_field, empty_field, id_card_field]))
   \<and> (\<exists>g \<in> set [religion_field, empty_field, id_card_field].
         field_region sample_card id_card_field = field_region sample_card g
         \<and> label g \<notin> {''prefix_name_th'', ''first_name_th'', ''last_name_th'',
                         ''date_of_birth_th'', ''date_of_expity_th'', ''religion''})"
proof -
  have h: "0 < img_size (field_region sample_card religion_field)"
    by code_simp
  have m: "Readtext [''th'', ''en''] (field_region sample_card id_card_field)
       \<in> set (snd (read_text_from_fields_easyocr (sample_reader [''th''])
                     (sample_reader [''en'']) (sample_reader [''th'', ''en'']) sample_card
                     [religion_field, empty_field, id_card_field]))"
    by code_simp
  have lb: "label religion_field = ''religion''" "label id_card_field = ''id_card''"
    by (simp_all add: religion_field_def id_card_field_def)
  have ll: "lang_list (sample_reader [''th'']) = [''th'']"
    by (simp add: sample_reader_def)
  note t1 = read_text_from_fields_language_table
    [of "Readtext [''th'', ''en''] (field_region sample_card id_card_field)"
        "sample_reader [''th'']" "sample_reader [''en'']" "sample_reader [''th'', ''en'']"
        sample_card "[religion_field, empty_field, id_card_field]" religion_field sample_env]
  from t1 h have a: "snd (read_text_from_fields_easyocr (sample_reader [''th''])
           (sample_reader [''en'']) (sample_reader [''th'', ''en'']) sample_card [religion_field])
       = [Readtext [''th''] (field_region sample_card religion_field)]"
    by (simp add: lb ll)
  from t1 h have b: "snd (read_text_from_fields sample_env sample_card [religion_field])
       = [ImageToString (field_region sample_card religion_field) ''tha+eng'' ''--psm 7'']"
    by (simp add: lb)
  have c: "\<exists>g \<in> set [religion_field, empty_field, id_card_field].
         field_region sample_card id_card_field = field_region sample_card g
         \<and> label g \<notin> {''prefix_name_th'', ''first_name_th'', ''last_name_th'',
                         ''date_of_birth_th'', ''date_of_expity_th'', ''religion''}"
    using lb by (intro bexI[of _ id_card_field]) simp_all
  show ?thesis using h a b m c by blast
qed

text \<open>
  C7 as stated fails in the pytesseract variant: the field \<open>religion\<close> is read with the
  combined hint, not with the Thai one.
\<close>

theorem read_text_from_fields_language_counterexample:
  "snd (read_text_from_fields sample_env sample_card [religion_field])
     = [ImageToString [[(0, 0, 255), (10, 20, 30)]] ''tha+eng'' ''--psm 7'']
   \<and> label religion_field = ''religion''"
  by code_simp

section \<open>Properties of the Card Localizer\<close>

lemma py_slice_map: "py_slice lo hi (map f xs) = map f (py_slice lo hi xs)"
  by (simp add: py_slice_def Let_def take_map drop_map)

lemma slice2_map: "slice2 (map (map f) img) y1 y2 x1 x2 = map (map f) (slice2 img y1 y2 x1 x2)"
  by (simp add: slice2_def py_slice_map)

lemma shape0_map: "shape0 (map (map f) img) = shape0 img"
  by (simp add: shape0_def)

lemma shape1_map: "shape1 (map (map f) img) = shape1 img"
  by (cases img) (simp_all add: shape1_def)

lemma img_size_map: "img_size (map (map f) img) = img_size img"
  by (simp add: img_size_def shape0_map shape1_map)

lemma gray_bgr_map: "gray_bgr env img = map (map (\<lambda>p. gray2bgr (bgr2gray env p))) img"
  by (simp add: gray_bgr_def comp_def)

lemma crop_best_box_map:
  "crop_best_box (map (map f) img) results
     = map_prod (map_option (map (map f))) id (crop_best_box img results)"
proof (cases "length results = 0")
  case True
  then show ?thesis by (simp add: crop_best_box_def)
next
  case False
  obtain x1 y1 x2 y2 where
    bb: "map (\<lambda>b. astype_int4 (xyxy b)) results ! argmax (map conf results) = (x1, y1, x2, y2)"
    by (metis prod_cases4)
  show ?thesis
    using False
    by (simp add: crop_best_box_def Let_def bb slice2_map shape0_map shape1_map img_size_map)
qed

lemma crop_best_box_gray:
  "crop_best_box (gray_bgr env img) results
     = map_prod (map_option (gray_bgr env)) id (crop_best_box img results)"
proof -
  have "gray_bgr env = map (map (\<lambda>p. gray2bgr (bgr2gray env p)))"
    by (rule ext) (rule gray_bgr_map)
  then show ?thesis by (simp only: crop_best_box_map)
qed

lemma sample_gray:
  "gray_bgr sample_env sample_card
     = [[(76, 76, 76), (22, 22, 22), (2, 2, 2)], [(5, 5, 5), (8, 8, 8), (29, 29, 29)]]"
  by (simp add: gray_bgr_def sample_env_def sample_card_def sample_luma_def gray2bgr_def)

lemma crop_best_box_sample:
  "crop_best_box sample_card card_boxes = (Some sample_card, Some card_boxes)"
  by (simp add: crop_best_box_def card_boxes_def argmax_def astype_int4_def astype_int_def
        sample_card_def slice2_def py_slice_def slice_bound_def shape0_def shape1_def
        img_size_def Let_def)

lemma crop_card_sample:
  "crop_card sample_env (const_model card_boxes) p
     = Inr (Some sample_card, Some card_boxes)"
  by (simp add: crop_card_def sample_env_def const_model_def crop_best_box_sample)

lemma crop_card_easyocr_sample:
  "crop_card_easyocr sample_env (const_model card_boxes) p
     = Inr (Some (gray_bgr sample_env sample_card), Some card_boxes)"
proof -
  have "crop_card_easyocr sample_env (const_model card_boxes) p
          = Inr (crop_best_box (gray_bgr sample_env sample_card) card_boxes)"
    by (simp only: crop_card_easyocr_def Let_def gray_bgr_def)
       (simp add: sample_env_def const_model_def)
  then show ?thesis by (simp add: crop_best_box_gray crop_best_box_sample)
qed

text \<open>
  C9, as amended. When the detector returns the same for the two sets of arguments on
  the grey image, the two variants of \<open>crop_card\<close> fail alike, return the same
  detection results and find a card in the same cases, with the same crop rectangle;
  the pytesseract variant cuts it from the image as read, the EasyOCR variant from the
  grey image, so its card is the grey conversion of the other. The two cropped cards
  are the same image when the grey conversion leaves the input unchanged.
\<close>

theorem crop_card_variants:
  assumes "\<forall>img. imread env p = Some img \<longrightarrow>
             predict m \<lparr>arg_conf = 1 / 4, arg_iou = None\<rparr> (gray_bgr env img)
               = predict m \<lparr>arg_conf = 1 / 4, arg_iou = Some (1 / 4)\<rparr> (gray_bgr env img)"
  shows "crop_card_easyocr env m p
           = map_sum id (map_prod (map_option (gray_bgr env)) id) (crop_card env m p)
       \<and> ((\<forall>img. imread env p = Some img \<longrightarrow> gray_bgr env img = img)
            \<longrightarrow> crop_card_easyocr env m p = crop_card env m p)"
proof (cases "imread env p")
  case None
  then show ?thesis by (simp add: crop_card_def crop_card_easyocr_def)
next
  case (Some img)
  let ?g = "gray_bgr env img"
  have same: "predict m \<lparr>arg_conf = 1 / 4, arg_iou = None\<rparr> ?g
                = predict m \<lparr>arg_conf = 1 / 4, arg_iou = Some (1 / 4)\<rparr> ?g"
    using assms Some by blast
  have h: "crop_card env m p =
             (case predict m \<lparr>arg_conf = 1 / 4, arg_iou = None\<rparr> ?g of
                Inl e \<Rightarrow> Inl e | Inr results \<Rightarrow> Inr (crop_best_box img results))"
    by (simp only: crop_card_def Let_def gray_bgr_def Some option.case)
  have e: "crop_card_easyocr env m p =
             (case predict m \<lparr>arg_conf = 1 / 4, arg_iou = Some (1 / 4)\<rparr> ?g of
                Inl e \<Rightarrow> Inl e | Inr results \<Rightarrow> Inr (crop_best_box ?g results))"
    by (simp only: crop_card_easyocr_def Let_def gray_bgr_def Some option.case)
  have rel: "crop_card_easyocr env m p
           = map_sum id (map_prod (map_option (gray_bgr env)) id) (crop_card env m p)"
    unfolding h e same[symmetric]
    by (cases "predict m \<lparr>arg_conf = 1 / 4, arg_iou = None\<rparr> ?g")
       (simp_all add: crop_best_box_gray)
  have eq: "(\<forall>img. imread env p = Some img \<longrightarrow> gray_bgr env img = img)
            \<longrightarrow> crop_card_easyocr env m p = crop_card env m p"
  proof
    assume "\<forall>img. imread env p = Some img \<longrightarrow> gray_bgr env img = img"
    then have g: "?g = img" using Some by blast
    show "crop_card_easyocr env m p = crop_card env m p"
      unfolding h e same[symmetric] unfolding g ..
  qed
  show ?thesis using rel eq by blast
qed

theorem crop_card_variants_witness:
  "imread sample_env ''card.png'' = Some sample_card
   \<and> predict (const_model card_boxes) \<lparr>arg_conf = 1 / 4, arg_iou = None\<rparr>
         (gray_bgr sample_env sample_card)
       = predict (const_model card_boxes) \<lparr>arg_conf = 1 / 4, arg_iou = Some (1 / 4)\<rparr>
           (gray_bgr sample_env sample_card)
   \<and> crop_card sample_env (const_model card_boxes) ''card.png''
       = Inr (Some sample_card, Some card_boxes)
   \<and> crop_card_easyocr sample_env (const_model card_boxes) ''card.png''
       = Inr (Some (gray_bgr sample_env sample_card), Some card_boxes)"
proof -
  have i: "imread sample_env ''card.png'' = Some sample_card"
    by (simp add: sample_env_def)
  have d: "predict (const_model card_boxes) \<lparr>arg_conf = 1 / 4, arg_iou = None\<rparr>
         (gray_bgr sample_env sample_card)
       = predict (const_model card_boxes) \<lparr>arg_conf = 1 / 4, arg_iou = Some (1 / 4)\<rparr>
           (gray_bgr sample_env sample_card)"
    by (simp add: const_model_def)
  have hyp: "\<forall>img. imread sample_env ''card.png'' = Some img \<longrightarrow>
             predict (const_model card_boxes) \<lparr>arg_conf = 1 / 4, arg_iou = None\<rparr>
                 (gray_bgr sample_env img)
               = predict (const_model card_boxes) \<lparr>arg_conf = 1 / 4, arg_iou = Some (1 / 4)\<rparr>
                   (gray_bgr sample_env img)"
    by (simp add: const_model_def)
  have "crop_card_easyocr sample_env (const_model card_boxes) ''card.png''
       = map_sum id (map_prod (map_option (gray_bgr sample_env)) id)
           (crop_card sample_env (const_model card_boxes) ''card.png'')"
    using crop_card_variants [OF hyp] by blast
  then have "crop_card_easyocr sample_env (const_model card_boxes) ''card.png''
       = Inr (Some (gray_bgr sample_env sample_card), Some card_boxes)"
    by (simp add: crop_card_sample)
  then show ?thesis using i d crop_card_sample by blast
qed

text \<open>
  C9 as stated fails on an image with colour: with the same detector output the
  pytesseract variant returns the colour crop, the EasyOCR variant the grey one.
\<close>

theorem crop_card_variants_counterexample:
  "predict (const_model card_boxes) \<lparr>arg_conf = 1 / 4, arg_iou = None\<rparr>
       (gray_bgr sample_env sample_card)
     = predict (const_model card_boxes) \<lparr>arg_conf = 1 / 4, arg_iou = Some (1 / 4)\<rparr>
         (gray_bgr sample_env sample_card)
   \<and> crop_card sample_env (const_model card_boxes) ''card.png''
       = Inr (Some [[(0, 0, 255), (10, 20, 30), (1, 2, 3)], [(5, 5, 5), (7, 8, 9), (255, 0, 0)]],
              Some card_boxes)
   \<and> crop_card_easyocr sample_env (const_model card_boxes) ''card.png''
       = Inr (Some [[(76, 76, 76), (22, 22, 22), (2, 2, 2)], [(5, 5, 5), (8, 8, 8), (29, 29, 29)]],
              Some card_boxes)
   \<and> crop_card sample_env (const_model card_boxes) ''card.png''
       \<noteq> crop_card_easyocr sample_env (const_model card_boxes) ''card.png''"
proof -
  have d: "predict (const_model card_boxes) \<lparr>arg_conf = 1 / 4, arg_iou = None\<rparr>
       (gray_bgr sample_env sample_card)
     = predict (const_model card_boxes) \<lparr>arg_conf = 1 / 4, arg_iou = Some (1 / 4)\<rparr>
         (gray_bgr sample_env sample_card)"
    by (simp add: const_model_def)
  have a: "crop_card sample_env (const_model card_boxes) ''card.png''
       = Inr (Some [[(0, 0, 255), (10, 20, 30), (1, 2, 3)], [(5, 5, 5), (7, 8, 9), (255, 0, 0)]],
              Some card_boxes)"
    using crop_card_sample by (simp add: sample_card_def)
  have b: "crop_card_easyocr sample_env (const_model card_boxes) ''card.png''
       = Inr (Some [[(76, 76, 76), (22, 22, 22), (2, 2, 2)], [(5, 5, 5), (8, 8, 8), (29, 29, 29)]],
              Some card_boxes)"
    using crop_card_easyocr_sample by (simp only: sample_gray)
  have c: "crop_card sample_env (const_model card_boxes) ''card.png''
       \<noteq> crop_card_easyocr sample_env (const_model card_boxes) ''card.png''"
    unfolding a b by simp
  show ?thesis using d a b c by blast
qed

section \<open>Properties of the Orchestrator and the endpoint\<close>

























lemma process_thai_id_status:
  "fst (process_thai_id env file) = Inl e \<Longrightarrow> \<exists>detail. e = HTTPException 500 detail"
  by (auto simp: process_thai_id_def Let_def internal_error_def split: prod.splits sum.splits)

lemma process_thai_id_easyocr_unloaded:
  assumes "save_upload env (path_join ''temp_uploads'' (filename file)) file = None"
    and "CARD_DETECTOR env = None \<or> TEXT_DETECTOR env = None \<or> TH_READER env = None
         \<or> EN_READER env = None \<or> MIXED_READER env = None"
  shows "process_thai_id_easyocr env file
           = (Inl (HTTPException 503 ''Models are not loaded. API is unavailable.''), [])"
proof -
  have "run_ocr_pipeline_easyocr env (path_join ''temp_uploads'' (filename file)) ''output_logs''
          = (Inl models_not_loaded, [])"
    using assms(2) by (auto simp: run_ocr_pipeline_easyocr_def split: option.splits)
  then show ?thesis
    using assms(1)
    by (simp add: process_thai_id_easyocr_def Let_def bind_io_def lift_exc_def
          models_not_loaded_def)
qed

lemma upload_name: "py_endswith (py_lower (filename sample_upload)) ''.heic'' = False"
  "py_endswith (py_lower (filename sample_upload)) ''.heif'' = False"
  by (simp_all add: sample_upload_def py_endswith_def py_lower_def py_lower_char_def)

lemma http_str_503: "sample_http_str 503 d = ''503: '' @ d"
  by (simp add: sample_http_str_def)

lemma http_str_400: "sample_http_str 400 d = ''400: '' @ d"
  by (simp add: sample_http_str_def)

text \<open>
  C1, at the failing inputs. With the models not loaded, and with a file in which no
  card is found, the endpoint of \<open>ocr_support_file_heic.py\<close> answers HTTP 500: its only
  handler catches the \<open>HTTPException\<close> that \<open>run_ocr_pipeline\<close> raises with status 503 or
  400. The endpoint of \<open>ocr_thai_id_card_easyocr.py\<close> answers 503 and 400 on the same
  inputs.
\<close>

theorem process_thai_id_masks_http_errors:
  "process_thai_id env_models_unloaded sample_upload
     = (Inl (HTTPException 500
          ''An internal server error occurred: 503: Models are not loaded. API is unavailable.''),
        [])
   \<and> process_thai_id_easyocr env_models_unloaded sample_upload
       = (Inl (HTTPException 503 ''Models are not loaded. API is unavailable.''), [])
   \<and> process_thai_id env_undecodable sample_upload
       = (Inl (HTTPException 500
            ''An internal server error occurred: 400: Could not detect an ID card in the image.''),
          [])
   \<and> process_thai_id_easyocr env_undecodable sample_upload
       = (Inl (HTTPException 400 ''Could not detect an ID card in the image.''), [])"
proof -
  have u: "save_upload env_models_unloaded = (\<lambda>path f. None)"
    "copy_file env_models_unloaded = (\<lambda>src dst. None)"
    "http_exception_str env_models_unloaded = sample_http_str"
    "CARD_DETECTOR env_models_unloaded = None"
    "save_upload env_undecodable = (\<lambda>path f. None)"
    "copy_file env_undecodable = (\<lambda>src dst. None)"
    "http_exception_str env_undecodable = sample_http_str"
    "CARD_DETECTOR env_undecodable = Some (const_model card_boxes)"
    "TEXT_DETECTOR env_undecodable = Some (const_model field_boxes)"
    "TH_READER env_undecodable = Some (sample_reader [''th''])"
    "EN_READER env_undecodable = Some (sample_reader [''en''])"
    "MIXED_READER env_undecodable = Some (sample_reader [''th'', ''en''])"
    "imread env_undecodable = (\<lambda>path. None)"
    by (simp_all add: env_models_unloaded_def env_undecodable_def sample_env_def)
  have r1: "\<And>p out. run_ocr_pipeline env_models_unloaded p out = (Inl models_not_loaded, [])"
    by (simp add: run_ocr_pipeline_def u)
  have r2: "\<And>p out. run_ocr_pipeline_easyocr env_models_unloaded p out
              = (Inl models_not_loaded, [])"
    by (simp add: run_ocr_pipeline_easyocr_def u)
  have r3: "\<And>p out. run_ocr_pipeline env_undecodable p out = (Inl card_not_found, [])"
    by (simp add: run_ocr_pipeline_def crop_card_def bind_io_def save_if_results_def u Let_def)
  have r4: "\<And>p out. run_ocr_pipeline_easyocr env_undecodable p out = (Inl card_not_found, [])"
    by (simp add: run_ocr_pipeline_easyocr_def crop_card_easyocr_def bind_io_def
          save_if_results_def u Let_def)
  have a: "process_thai_id env_models_unloaded sample_upload
     = (Inl (HTTPException 500
          ''An internal server error occurred: 503: Models are not loaded. API is unavailable.''),
        [])"
    by (simp add: process_thai_id_def Let_def bind_io_def lift_exc_def u r1 upload_name
          internal_error_def exc_str_def models_not_loaded_def http_str_503)
  have b: "process_thai_id_easyocr env_models_unloaded sample_upload
       = (Inl (HTTPException 503 ''Models are not loaded. API is unavailable.''), [])"
    by (simp add: process_thai_id_easyocr_def Let_def bind_io_def lift_exc_def u r2
          models_not_loaded_def)
  have c: "process_thai_id env_undecodable sample_upload
       = (Inl (HTTPException 500
            ''An internal server error occurred: 400: Could not detect an ID card in the image.''),
          [])"
    by (simp add: process_thai_id_def Let_def bind_io_def lift_exc_def u r3 upload_name
          internal_error_def exc_str_def card_not_found_def http_str_400)
  have d: "process_thai_id_easyocr env_undecodable sample_upload
       = (Inl (HTTPException 400 ''Could not detect an ID card in the image.''), [])"
    by (simp add: process_thai_id_easyocr_def Let_def bind_io_def lift_exc_def u r4
          card_not_found_def)
  show ?thesis using a b c d by blast
qed

end
